theory Spec2Isabelle
  imports Complex_Main
begin

section \<open>JavaScript numbers\<close>

text \<open>
  The client and the server compute with the JavaScript \<open>number\<close> type: IEEE 754
  binary64 with round-to-nearest, ties-to-even. A finite value is kept as the rational
  it denotes. The two zeros are one value here: the program only multiplies, adds,
  subtracts, divides by the literal 100, compares and prints, and none of these
  tells \<open>-0\<close> from \<open>+0\<close> in a non-zero result or in a printed string.
\<close>

datatype number = NaN | PosInf | NegInf | Fin rat

definition pow2 :: "int \<Rightarrow> rat" where
  "pow2 k = (if 0 \<le> k then 2 ^ nat k else 1 / 2 ^ nat (- k))"

definition pow10 :: "int \<Rightarrow> rat" where
  "pow10 k = (if 0 \<le> k then 10 ^ nat k else 1 / 10 ^ nat (- k))"

function bitlen :: "int \<Rightarrow> int" where
  "bitlen n = (if n \<le> 0 then 0 else 1 + bitlen (n div 2))"
  by pat_completeness auto
termination
  by (relation "measure nat") auto

declare bitlen.simps [simp del]

definition ilog2 :: "rat \<Rightarrow> int" where
  \<comment> \<open>\<open>\<lfloor>log\<^sub>2 a\<rfloor>\<close> for \<open>0 < a\<close>\<close>
  "ilog2 a = (let p = fst (quotient_of a); q = snd (quotient_of a);
                  d = bitlen p - bitlen q
              in if pow2 d \<le> a then d else d - 1)"

definition round_half_even :: "rat \<Rightarrow> int" where
  "round_half_even m = (let f = \<lfloor>m\<rfloor>; r = m - of_int f
     in if r < 1 / 2 then f else if 1 / 2 < r then f + 1
        else if even f then f else f + 1)"

definition round64 :: "rat \<Rightarrow> number" where
  \<comment> \<open>the Number value for a real: 53 significant bits, exponents from -1022 (below it
      the subnormal grid of step \<open>2\<^sup>-\<^sup>1\<^sup>0\<^sup>7\<^sup>4\<close>) up to 1023, overflow to the infinities\<close>
  "round64 x = (if x = 0 then Fin 0 else
     let a = \<bar>x\<bar>; e = max (ilog2 a) (- 1022); q = pow2 (e - 52);
         m = round_half_even (a / q)
     in if 1024 \<le> e \<or> (e = 1023 \<and> m = 2 ^ 53)
        then (if x < 0 then NegInf else PosInf)
        else Fin (if x < 0 then - (of_int m * q) else of_int m * q))"

definition is_double :: "number \<Rightarrow> bool" where
  \<comment> \<open>the values a JavaScript number can hold\<close>
  "is_double x = (case x of Fin r \<Rightarrow> round64 r = Fin r | _ \<Rightarrow> True)"

fun dneg :: "number \<Rightarrow> number" where
  "dneg NaN = NaN"
| "dneg PosInf = NegInf"
| "dneg NegInf = PosInf"
| "dneg (Fin a) = Fin (- a)"

fun dmul :: "number \<Rightarrow> number \<Rightarrow> number" where
  "dmul NaN _ = NaN"
| "dmul _ NaN = NaN"
| "dmul (Fin a) (Fin b) = round64 (a * b)"
| "dmul (Fin a) PosInf = (if a = 0 then NaN else if 0 < a then PosInf else NegInf)"
| "dmul (Fin a) NegInf = (if a = 0 then NaN else if 0 < a then NegInf else PosInf)"
| "dmul PosInf (Fin b) = (if b = 0 then NaN else if 0 < b then PosInf else NegInf)"
| "dmul NegInf (Fin b) = (if b = 0 then NaN else if 0 < b then NegInf else PosInf)"
| "dmul PosInf PosInf = PosInf"
| "dmul PosInf NegInf = NegInf"
| "dmul NegInf PosInf = NegInf"
| "dmul NegInf NegInf = PosInf"

fun dadd :: "number \<Rightarrow> number \<Rightarrow> number" where
  "dadd NaN _ = NaN"
| "dadd _ NaN = NaN"
| "dadd (Fin a) (Fin b) = round64 (a + b)"
| "dadd (Fin a) PosInf = PosInf"
| "dadd (Fin a) NegInf = NegInf"
| "dadd PosInf (Fin b) = PosInf"
| "dadd NegInf (Fin b) = NegInf"
| "dadd PosInf PosInf = PosInf"
| "dadd PosInf NegInf = NaN"
| "dadd NegInf PosInf = NaN"
| "dadd NegInf NegInf = NegInf"

definition dsub :: "number \<Rightarrow> number \<Rightarrow> number" where
  "dsub x y = dadd x (dneg y)"

fun ddiv :: "number \<Rightarrow> number \<Rightarrow> number" where
  \<comment> \<open>a zero divisor is read as \<open>+0\<close>; the program divides by the literal 100 only\<close>
  "ddiv NaN _ = NaN"
| "ddiv _ NaN = NaN"
| "ddiv (Fin a) (Fin b) =
     (if b = 0 then (if a = 0 then NaN else if 0 < a then PosInf else NegInf)
      else round64 (a / b))"
| "ddiv (Fin a) PosInf = Fin 0"
| "ddiv (Fin a) NegInf = Fin 0"
| "ddiv PosInf (Fin b) = (if 0 \<le> b then PosInf else NegInf)"
| "ddiv NegInf (Fin b) = (if 0 \<le> b then NegInf else PosInf)"
| "ddiv PosInf PosInf = NaN"
| "ddiv PosInf NegInf = NaN"
| "ddiv NegInf PosInf = NaN"
| "ddiv NegInf NegInf = NaN"

fun dle :: "number \<Rightarrow> number \<Rightarrow> bool" where
  \<comment> \<open>\<open>x <= y\<close>; every comparison with NaN is false\<close>
  "dle NaN _ = False"
| "dle _ NaN = False"
| "dle (Fin a) (Fin b) = (a \<le> b)"
| "dle (Fin a) PosInf = True"
| "dle (Fin a) NegInf = False"
| "dle PosInf (Fin b) = False"
| "dle NegInf (Fin b) = True"
| "dle PosInf PosInf = True"
| "dle PosInf NegInf = False"
| "dle NegInf PosInf = True"
| "dle NegInf NegInf = True"

section \<open>Strings and the built-in conversions\<close>

text \<open>
  A string is a list of characters; every string the numbering and the totals handle is
  ASCII. The conversions follow ECMAScript: \<open>Number.prototype.toString\<close> (radix 10),
  \<open>parseFloat\<close>, \<open>parseInt\<close> (no radix argument), \<open>String.prototype.padStart\<close>
  and \<open>String.prototype.replace\<close> with a string pattern. White space is the ASCII
  white space.
\<close>

definition is_digit :: "char \<Rightarrow> bool" where
  "is_digit c = (48 \<le> (of_char c :: int) \<and> (of_char c :: int) \<le> 57)"

definition digit_val :: "char \<Rightarrow> int" where
  "digit_val c = of_char c - 48"

definition digit_char :: "int \<Rightarrow> char" where
  "digit_char d = char_of (48 + d)"

definition is_ws :: "char \<Rightarrow> bool" where
  "is_ws c = ((of_char c :: int) \<in> {9, 10, 11, 12, 13, 32})"

definition int_of_digits :: "string \<Rightarrow> int" where
  "int_of_digits ds = foldl (\<lambda>a c. 10 * a + digit_val c) 0 ds"

function digits_of :: "int \<Rightarrow> string" where
  \<comment> \<open>the decimal digits of a natural number\<close>
  "digits_of n = (if n < 10 then [digit_char n]
                  else digits_of (n div 10) @ [digit_char (n mod 10)])"
  by pat_completeness auto
termination
  by (relation "measure nat") auto

declare digits_of.simps [simp del]

subsection \<open>Number to string\<close>

text \<open>
  Number::toString prints a positive number \<open>x\<close> from integers \<open>n\<close>, \<open>k\<close>, \<open>s\<close> with
  \<open>10\<^sup>k\<^sup>-\<^sup>1 \<le> s < 10\<^sup>k\<close>, such that \<open>s * 10\<^sup>n\<^sup>-\<^sup>k\<close> reads back as \<open>x\<close>, and \<open>k\<close> as small as
  possible. The search below tries \<open>k = 1, ..., 17\<close> in turn; for each \<open>k\<close> the two decimals
  of \<open>k\<close> digits around \<open>x\<close> are the only ones that can read back as \<open>x\<close>. When both do, \<open>s\<close>
  is the one nearer to \<open>x\<close>, and the even one if they are equally near.
\<close>

definition dec_exp :: "rat \<Rightarrow> int" where
  \<comment> \<open>the \<open>n\<close> with \<open>10\<^sup>n\<^sup>-\<^sup>1 \<le> r < 10\<^sup>n\<close>, for \<open>0 < r\<close>\<close>
  "dec_exp r = (if 1 \<le> r then int (length (digits_of \<lfloor>r\<rfloor>))
                else 1 - int (length (digits_of (\<lceil>1 / r\<rceil> - 1))))"

definition rounds_to :: "rat \<Rightarrow> int \<Rightarrow> int \<Rightarrow> bool" where
  "rounds_to r c e = (0 < c \<and> round64 (of_int c * pow10 e) = Fin r)"

definition candidate :: "rat \<Rightarrow> int \<Rightarrow> (int \<times> int) option" where
  \<comment> \<open>a decimal \<open>c * 10\<^sup>e\<close> of \<open>k\<close> digits that reads back as \<open>r\<close>; of two, the nearer,
      and the even one when both are as near\<close>
  "candidate r k =
     (let e = dec_exp r - k; lo = \<lfloor>r / pow10 e\<rfloor>;
          a = rounds_to r lo e; b = rounds_to r (lo + 1) e;
          below = r - of_int lo * pow10 e; above = of_int (lo + 1) * pow10 e - r
      in if a \<and> b then
           (if below < above then Some (lo, e)
            else if above < below then Some (lo + 1, e)
            else if even lo then Some (lo, e) else Some (lo + 1, e))
         else if a then Some (lo, e)
         else if b then Some (lo + 1, e)
         else None)"

definition exact_expansion :: "rat \<Rightarrow> int \<times> int" where
  \<comment> \<open>every finite number is a multiple of \<open>2\<^sup>-\<^sup>1\<^sup>0\<^sup>7\<^sup>4\<close>, so of \<open>10\<^sup>-\<^sup>1\<^sup>0\<^sup>7\<^sup>4\<close>\<close>
  "exact_expansion r = (\<lfloor>r * pow10 1074\<rfloor>, - 1074)"

fun shortest_from :: "rat \<Rightarrow> int list \<Rightarrow> int \<times> int" where
  \<comment> \<open>the fewest digits first; the exact expansion ends the search\<close>
  "shortest_from r [] = exact_expansion r"
| "shortest_from r (k # ks) =
     (case candidate r k of Some ce \<Rightarrow> ce | None \<Rightarrow> shortest_from r ks)"

definition shortest :: "rat \<Rightarrow> int \<times> int" where
  "shortest r = shortest_from r [1..17]"

definition strip_zeros :: "string \<Rightarrow> string" where
  "strip_zeros ds = rev (dropWhile (\<lambda>c. c = CHR ''0'') (rev ds))"

definition layout :: "string \<Rightarrow> int \<Rightarrow> string" where
  \<comment> \<open>Number::toString lays out the digits \<open>ds\<close> of \<open>s\<close> (\<open>k\<close> of them) for the value
      \<open>s * 10\<^sup>n\<^sup>-\<^sup>k\<close>\<close>
  "layout ds n =
     (let k = int (length ds)
      in if k \<le> n \<and> n \<le> 21 then ds @ replicate (nat (n - k)) (CHR ''0'')
         else if 0 < n \<and> n \<le> 21 then take (nat n) ds @ ''.'' @ drop (nat n) ds
         else if - 6 < n \<and> n \<le> 0 then ''0.'' @ replicate (nat (- n)) (CHR ''0'') @ ds
         else let ex = (if n - 1 < 0 then ''-'' else ''+'') @ digits_of \<bar>n - 1\<bar>
              in if k = 1 then ds @ ''e'' @ ex
                 else take 1 ds @ ''.'' @ drop 1 ds @ ''e'' @ ex)"

definition render :: "int \<Rightarrow> int \<Rightarrow> string" where
  \<comment> \<open>\<open>c * 10\<^sup>e\<close>, for \<open>0 < c\<close>: the digits of \<open>c\<close> without its final zeros\<close>
  "render c e = layout (strip_zeros (digits_of c)) (e + int (length (digits_of c)))"

definition pos_toString :: "rat \<Rightarrow> string" where
  "pos_toString r = (case shortest r of (c, e) \<Rightarrow> render c e)"

fun num_toString :: "number \<Rightarrow> string" where
  "num_toString NaN = ''NaN''"
| "num_toString PosInf = ''Infinity''"
| "num_toString NegInf = ''-Infinity''"
| "num_toString (Fin r) =
     (if r = 0 then ''0''
      else if r < 0 then CHR ''-'' # pos_toString (- r)
      else pos_toString r)"

subsection \<open>String to number\<close>

text \<open>
  \<open>parseFloat\<close> and \<open>parseInt\<close> skip leading white space, take a sign, and read the
  longest prefix that is a number; what follows is ignored, and \<open>NaN\<close> is the result
  when there is no such prefix. \<open>parseInt\<close> reads base 16 after \<open>0x\<close>. The digits are
  read exactly and rounded once.
\<close>

definition is_neg :: "string \<Rightarrow> bool" where
  "is_neg s = (case s of [] \<Rightarrow> False | c # _ \<Rightarrow> c = CHR ''-'')"

definition drop_sign :: "string \<Rightarrow> string" where
  "drop_sign s = (case s of [] \<Rightarrow> []
                  | c # cs \<Rightarrow> if c = CHR ''+'' \<or> c = CHR ''-'' then cs else c # cs)"

definition exponent_part :: "string \<Rightarrow> int" where
  "exponent_part r =
     (case r of [] \<Rightarrow> 0
      | c # s \<Rightarrow>
          if c = CHR ''e'' \<or> c = CHR ''E'' then
            (let ed = takeWhile is_digit (drop_sign s)
             in if ed = [] then 0
                else if is_neg s then - int_of_digits ed
                else int_of_digits ed)
          else 0)"

definition str_decimal_literal :: "string \<Rightarrow> number" where
  \<comment> \<open>the longest prefix that is an unsigned decimal literal, read to the nearest number\<close>
  "str_decimal_literal u =
     (if take 8 u = ''Infinity'' then PosInf
      else
        let ip = takeWhile is_digit u; r1 = dropWhile is_digit u;
            dot = (case r1 of [] \<Rightarrow> False | c # _ \<Rightarrow> c = CHR ''.'');
            fp = (if dot then takeWhile is_digit (tl r1) else []);
            r2 = (if dot then dropWhile is_digit (tl r1) else r1)
        in if ip = [] \<and> fp = [] then NaN
           else round64 (of_int (int_of_digits (ip @ fp))
                         * pow10 (exponent_part r2 - int (length fp))))"

definition parseFloat :: "string \<Rightarrow> number" where
  "parseFloat string =
     (let t = dropWhile is_ws string; v = str_decimal_literal (drop_sign t)
      in if is_neg t then dneg v else v)"

definition is_hex_digit :: "char \<Rightarrow> bool" where
  "is_hex_digit c = (is_digit c \<or> (97 \<le> (of_char c :: int) \<and> (of_char c :: int) \<le> 102)
                      \<or> (65 \<le> (of_char c :: int) \<and> (of_char c :: int) \<le> 70))"

definition hex_val :: "char \<Rightarrow> int" where
  "hex_val c = (if is_digit c then of_char c - 48
                else if 97 \<le> (of_char c :: int) then of_char c - 87
                else of_char c - 55)"

definition parseInt :: "string \<Rightarrow> number" where
  "parseInt string =
     (let t = dropWhile is_ws string; s = drop_sign t;
          hex = (take 2 s = ''0x'' \<or> take 2 s = ''0X'');
          z = (if hex then takeWhile is_hex_digit (drop 2 s) else takeWhile is_digit s)
      in if z = [] then NaN
         else
           let mathInt = (if hex then foldl (\<lambda>a c. 16 * a + hex_val c) 0 z
                          else int_of_digits z);
               v = round64 (of_int mathInt)
           in if is_neg t then dneg v else v)"

text \<open>
  \<open>Number(value)\<close>, the conversion that \<open>*\<close> applies to an operand and that
  \<open>z.coerce.number()\<close> applies to a form value, reads a string from end to end: white
  space around it is skipped, the empty string is \<open>0\<close>, a literal after \<open>0x\<close>, \<open>0o\<close> or \<open>0b\<close>
  is read in its base, and a string that is not a numeric literal as a whole is \<open>NaN\<close>.
\<close>

definition trim :: "string \<Rightarrow> string" where
  "trim s = rev (dropWhile is_ws (rev (dropWhile is_ws s)))"

definition exponent_whole :: "string \<Rightarrow> int option" where
  \<comment> \<open>the exponent, when the rest of the literal is an exponent part or empty\<close>
  "exponent_whole r =
     (case r of [] \<Rightarrow> Some 0
      | c # s \<Rightarrow>
          if (c = CHR ''e'' \<or> c = CHR ''E'') \<and> drop_sign s \<noteq> [] \<and> list_all is_digit (drop_sign s)
          then Some (if is_neg s then - int_of_digits (drop_sign s)
                     else int_of_digits (drop_sign s))
          else None)"

definition str_unsigned_decimal_literal :: "string \<Rightarrow> number" where
  "str_unsigned_decimal_literal u =
     (if u = ''Infinity'' then PosInf
      else
        let ip = takeWhile is_digit u; r1 = dropWhile is_digit u;
            dot = (case r1 of [] \<Rightarrow> False | c # _ \<Rightarrow> c = CHR ''.'');
            fp = (if dot then takeWhile is_digit (tl r1) else []);
            r2 = (if dot then dropWhile is_digit (tl r1) else r1)
        in if ip = [] \<and> fp = [] then NaN
           else case exponent_whole r2 of
                  None \<Rightarrow> NaN
                | Some ex \<Rightarrow> round64 (of_int (int_of_digits (ip @ fp))
                                        * pow10 (ex - int (length fp))))"

definition radix_literal :: "int \<Rightarrow> string \<Rightarrow> number" where
  "radix_literal radix ds =
     (if ds \<noteq> [] \<and> list_all (\<lambda>c. is_hex_digit c \<and> hex_val c < radix) ds
      then round64 (of_int (foldl (\<lambda>a c. radix * a + hex_val c) 0 ds))
      else NaN)"

definition string_to_number :: "string \<Rightarrow> number" where
  "string_to_number string =
     (let t = trim string; p = take 2 t
      in if t = [] then Fin 0
         else if p = ''0x'' \<or> p = ''0X'' then radix_literal 16 (drop 2 t)
         else if p = ''0o'' \<or> p = ''0O'' then radix_literal 8 (drop 2 t)
         else if p = ''0b'' \<or> p = ''0B'' then radix_literal 2 (drop 2 t)
         else
           let v = str_unsigned_decimal_literal (drop_sign t)
           in if is_neg t then dneg v else v)"

subsection \<open>Padding and replacing\<close>

definition padStart :: "string \<Rightarrow> nat \<Rightarrow> string \<Rightarrow> string" where
  "padStart s targetLength padString =
     (if targetLength \<le> length s \<or> padString = [] then s
      else take (targetLength - length s)
             (concat (replicate (targetLength - length s) padString)) @ s)"

fun replace :: "string \<Rightarrow> string \<Rightarrow> string \<Rightarrow> string" where
  \<comment> \<open>the first occurrence of the pattern, for a replacement without \<open>$\<close>\<close>
  "replace [] pat rep = (if pat = [] then rep else [])"
| "replace (c # cs) pat rep =
     (if take (length pat) (c # cs) = pat then rep @ drop (length pat) (c # cs)
      else c # replace cs pat rep)"

section \<open>The invoice form: line items and totals\<close>

text \<open>
  \<open>invoice-form.tsx\<close> computes the amounts of the line items and the totals of an
  invoice three times: in \<open>createInvoiceMutation\<close>, in \<open>updateInvoiceMutation\<close> and in
  \<open>handlePreview\<close>. Each copy is embedded on its own, from its own lines.

  The three copies do not read the same values. The fields of the form hold what the
  inputs put there: \<open>quantity\<close> and \<open>rate\<close> are \<open>undefined\<close> in a new item, the typed
  text (\<open>e.target.value\<close>, a string) once the input has changed, and a number
  (\<open>parseFloat\<close> of the stored field) in an item loaded from an invoice; \<open>taxRate\<close> and
  \<open>discountRate\<close> are numbers (\<open>18\<close> and \<open>0\<close>, \<open>parseFloat(e.target.value) || 0\<close>, or
  \<open>parseFloat\<close> of the stored field). \<open>handlePreview\<close> reads these values as they are,
  from \<open>form.getValues()\<close>. The two mutations are called from \<open>onSubmit\<close> with the output
  of the schema, where \<open>z.coerce.number()\<close> has made a number of each of the four.
\<close>

datatype form_value = Undefined | Str string | Num number

fun to_number :: "form_value \<Rightarrow> number" where
  \<comment> \<open>\<open>Number(value)\<close>\<close>
  "to_number Undefined = NaN"
| "to_number (Str s) = string_to_number s"
| "to_number (Num x) = x"

datatype invoice_status = draft | sent | paid | overdue

datatype currency_code = INR | USD | EUR | GBP

text \<open>The values of the form, as \<open>form.getValues()\<close> returns them.\<close>

record ItemValues =
  description :: string
  quantity :: form_value
  rate :: form_value
  taxRate :: form_value
  discountRate :: form_value

record FormValues =
  clientId :: string
  date :: string
  dueDate :: string
  status :: invoice_status
  currency :: currency_code
  "notes" :: "string option"
  items :: "ItemValues list"

text \<open>The output of the schema, the argument of \<open>onSubmit\<close>: \<open>InvoiceFormData\<close>.\<close>

record FormItem =
  description :: string
  quantity :: number
  rate :: number
  taxRate :: number
  discountRate :: number

record InvoiceFormData =
  clientId :: string
  date :: string
  dueDate :: string
  status :: invoice_status
  currency :: currency_code
  "notes" :: "string option"
  items :: "FormItem list"

record CalculatedItem =
  description :: string
  quantity :: string
  rate :: string
  taxRate :: string
  discountRate :: string
  amount :: string

text \<open>An object sent as the invoice of a request: a field is present or absent.\<close>

record invoicePayload =
  clientId :: "string option"
  date :: "string option"
  dueDate :: "string option"
  status :: "invoice_status option"
  currency :: "currency_code option"
  "notes" :: "string option"
  invoiceNumber :: "string option"
  subtotal :: "string option"
  taxAmount :: "string option"
  discountAmount :: "string option"
  total :: "string option"

text \<open>
  The rows the server returns (\<open>@shared/schema\<close>): an invoice with its client and its
  items. \<open>createdAt\<close> is a point in time, kept as a count of milliseconds. The client
  of a joined row is \<open>null\<close> when the left join finds none.
\<close>

record Client =
  id' :: string
  companyName :: string
  contactPerson :: string
  email :: string
  phone :: string
  address :: string

record InvoiceItem = CalculatedItem +
  id' :: string
  invoiceId :: string

record Invoice =
  id' :: string
  invoiceNumber :: string
  clientId :: string
  date :: string
  dueDate :: string
  status :: invoice_status
  currency :: currency_code
  subtotal :: string
  taxAmount :: string
  discountAmount :: string
  total :: string
  "notes" :: "string option"
  createdAt :: int

record InvoiceWithClient = Invoice +
  client :: "Client option"
  items :: "InvoiceItem list"

datatype error = Error string | Toast string string | TypeError

subsection \<open>createInvoiceMutation\<close>

definition create_calculatedItems :: "FormItem list \<Rightarrow> CalculatedItem list" where
  "create_calculatedItems its = map (\<lambda>item.
     let lineSubtotal = dmul (FormItem.quantity item) (FormItem.rate item);
         discount = ddiv (dmul lineSubtotal (FormItem.discountRate item)) (Fin 100);
         subtotalAfterDiscount = dsub lineSubtotal discount;
         tax = ddiv (dmul subtotalAfterDiscount (FormItem.taxRate item)) (Fin 100);
         amount = dadd subtotalAfterDiscount tax
     in \<lparr> CalculatedItem.description = FormItem.description item,
          CalculatedItem.quantity = num_toString (FormItem.quantity item),
          CalculatedItem.rate = num_toString (FormItem.rate item),
          CalculatedItem.taxRate = num_toString (FormItem.taxRate item),
          CalculatedItem.discountRate = num_toString (FormItem.discountRate item),
          CalculatedItem.amount = num_toString amount \<rparr>) its"

definition create_subtotal :: "CalculatedItem list \<Rightarrow> number" where
  "create_subtotal calculatedItems = foldl (\<lambda>sum item.
     let lineSubtotal = dmul (parseFloat (CalculatedItem.quantity item))
                             (parseFloat (CalculatedItem.rate item))
     in dadd sum lineSubtotal) (Fin 0) calculatedItems"

definition create_totalDiscount :: "CalculatedItem list \<Rightarrow> number" where
  "create_totalDiscount calculatedItems = foldl (\<lambda>sum item.
     let lineSubtotal = dmul (parseFloat (CalculatedItem.quantity item))
                             (parseFloat (CalculatedItem.rate item));
         discount = ddiv (dmul lineSubtotal (parseFloat (CalculatedItem.discountRate item)))
                         (Fin 100)
     in dadd sum discount) (Fin 0) calculatedItems"

definition create_totalTax :: "CalculatedItem list \<Rightarrow> number" where
  "create_totalTax calculatedItems = foldl (\<lambda>sum item.
     let lineSubtotal = dmul (parseFloat (CalculatedItem.quantity item))
                             (parseFloat (CalculatedItem.rate item));
         discount = ddiv (dmul lineSubtotal (parseFloat (CalculatedItem.discountRate item)))
                         (Fin 100);
         subtotalAfterDiscount = dsub lineSubtotal discount;
         tax = ddiv (dmul subtotalAfterDiscount (parseFloat (CalculatedItem.taxRate item)))
                    (Fin 100)
     in dadd sum tax) (Fin 0) calculatedItems"

definition create_total :: "CalculatedItem list \<Rightarrow> number" where
  "create_total calculatedItems =
     dadd (dsub (create_subtotal calculatedItems) (create_totalDiscount calculatedItems))
          (create_totalTax calculatedItems)"

definition or_default :: "string option \<Rightarrow> string \<Rightarrow> string" where
  \<comment> \<open>\<open>x || d\<close> on an optional string: an absent and an empty string are falsy\<close>
  "or_default x d = (case x of None \<Rightarrow> d | Some s \<Rightarrow> if s = [] then d else s)"

definition create_invoicePayload :: "string option \<Rightarrow> InvoiceFormData \<Rightarrow> invoicePayload" where
  "create_invoicePayload nextInvoiceNumber data =
     (let calculatedItems = create_calculatedItems (InvoiceFormData.items data)
      in \<lparr> invoicePayload.clientId = Some (InvoiceFormData.clientId data),
           invoicePayload.date = Some (InvoiceFormData.date data),
           invoicePayload.dueDate = Some (InvoiceFormData.dueDate data),
           invoicePayload.status = Some (InvoiceFormData.status data),
           invoicePayload.currency = Some (InvoiceFormData.currency data),
           invoicePayload.notes = InvoiceFormData.notes data,
           invoicePayload.invoiceNumber = Some (or_default nextInvoiceNumber ''INV-0001''),
           invoicePayload.subtotal = Some (num_toString (create_subtotal calculatedItems)),
           invoicePayload.taxAmount = Some (num_toString (create_totalTax calculatedItems)),
           invoicePayload.discountAmount =
             Some (num_toString (create_totalDiscount calculatedItems)),
           invoicePayload.total = Some (num_toString (create_total calculatedItems)) \<rparr>)"

text \<open>A request to the server: the method, the id in the path, the invoice, the items.\<close>

datatype request =
    POST_invoices invoicePayload "CalculatedItem list"
  | PUT_invoices string invoicePayload "CalculatedItem list"

definition createInvoiceMutation :: "string option \<Rightarrow> InvoiceFormData \<Rightarrow> request" where
  "createInvoiceMutation nextInvoiceNumber data =
     POST_invoices (create_invoicePayload nextInvoiceNumber data)
       (create_calculatedItems (InvoiceFormData.items data))"

subsection \<open>updateInvoiceMutation\<close>

definition update_calculatedItems :: "FormItem list \<Rightarrow> CalculatedItem list" where
  "update_calculatedItems its = map (\<lambda>item.
     let lineSubtotal = dmul (FormItem.quantity item) (FormItem.rate item);
         discount = ddiv (dmul lineSubtotal (FormItem.discountRate item)) (Fin 100);
         subtotalAfterDiscount = dsub lineSubtotal discount;
         tax = ddiv (dmul subtotalAfterDiscount (FormItem.taxRate item)) (Fin 100);
         amount = dadd subtotalAfterDiscount tax
     in \<lparr> CalculatedItem.description = FormItem.description item,
          CalculatedItem.quantity = num_toString (FormItem.quantity item),
          CalculatedItem.rate = num_toString (FormItem.rate item),
          CalculatedItem.taxRate = num_toString (FormItem.taxRate item),
          CalculatedItem.discountRate = num_toString (FormItem.discountRate item),
          CalculatedItem.amount = num_toString amount \<rparr>) its"

definition update_subtotal :: "CalculatedItem list \<Rightarrow> number" where
  "update_subtotal calculatedItems = foldl (\<lambda>sum item.
     let lineSubtotal = dmul (parseFloat (CalculatedItem.quantity item))
                             (parseFloat (CalculatedItem.rate item))
     in dadd sum lineSubtotal) (Fin 0) calculatedItems"

definition update_totalDiscount :: "CalculatedItem list \<Rightarrow> number" where
  "update_totalDiscount calculatedItems = foldl (\<lambda>sum item.
     let lineSubtotal = dmul (parseFloat (CalculatedItem.quantity item))
                             (parseFloat (CalculatedItem.rate item));
         discount = ddiv (dmul lineSubtotal (parseFloat (CalculatedItem.discountRate item)))
                         (Fin 100)
     in dadd sum discount) (Fin 0) calculatedItems"

definition update_totalTax :: "CalculatedItem list \<Rightarrow> number" where
  "update_totalTax calculatedItems = foldl (\<lambda>sum item.
     let lineSubtotal = dmul (parseFloat (CalculatedItem.quantity item))
                             (parseFloat (CalculatedItem.rate item));
         discount = ddiv (dmul lineSubtotal (parseFloat (CalculatedItem.discountRate item)))
                         (Fin 100);
         subtotalAfterDiscount = dsub lineSubtotal discount;
         tax = ddiv (dmul subtotalAfterDiscount (parseFloat (CalculatedItem.taxRate item)))
                    (Fin 100)
     in dadd sum tax) (Fin 0) calculatedItems"

definition update_total :: "CalculatedItem list \<Rightarrow> number" where
  "update_total calculatedItems =
     dadd (dsub (update_subtotal calculatedItems) (update_totalDiscount calculatedItems))
          (update_totalTax calculatedItems)"

definition update_invoicePayload :: "InvoiceFormData \<Rightarrow> invoicePayload" where
  "update_invoicePayload data =
     (let calculatedItems = update_calculatedItems (InvoiceFormData.items data)
      in \<lparr> invoicePayload.clientId = Some (InvoiceFormData.clientId data),
           invoicePayload.date = Some (InvoiceFormData.date data),
           invoicePayload.dueDate = Some (InvoiceFormData.dueDate data),
           invoicePayload.status = Some (InvoiceFormData.status data),
           invoicePayload.currency = Some (InvoiceFormData.currency data),
           invoicePayload.notes = InvoiceFormData.notes data,
           invoicePayload.invoiceNumber = None,
           invoicePayload.subtotal = Some (num_toString (update_subtotal calculatedItems)),
           invoicePayload.taxAmount = Some (num_toString (update_totalTax calculatedItems)),
           invoicePayload.discountAmount =
             Some (num_toString (update_totalDiscount calculatedItems)),
           invoicePayload.total = Some (num_toString (update_total calculatedItems)) \<rparr>)"

definition updateInvoiceMutation ::
  "InvoiceWithClient option \<Rightarrow> InvoiceFormData \<Rightarrow> error + request" where
  "updateInvoiceMutation invoice data =
     (case invoice of
        None \<Rightarrow> Inl (Error ''No invoice to update'')
      | Some existing \<Rightarrow>
          Inr (PUT_invoices (Invoice.id' existing) (update_invoicePayload data)
                 (update_calculatedItems (InvoiceFormData.items data))))"

subsection \<open>handlePreview\<close>

text \<open>
  The preview reads the values of the form. \<open>*\<close> converts its operands with \<open>Number\<close>;
  \<open>toString()\<close> of a string is the string, of a number its decimal string, and of
  \<open>undefined\<close> a \<open>TypeError\<close> that ends \<open>handlePreview\<close>. The fields of the object are
  evaluated in the order in which they are written. The preview gives every item a
  temporary id, \<open>Math.random().toString()\<close>: \<open>random i\<close> is the number drawn for the item
  at index \<open>i\<close>, and \<open>now\<close> the time of the call.
\<close>

definition toString_method :: "form_value \<Rightarrow> error + string" where
  "toString_method v = (case v of Undefined \<Rightarrow> Inl TypeError
                        | Str s \<Rightarrow> Inr s
                        | Num x \<Rightarrow> Inr (num_toString x))"

definition preview_item :: "number \<Rightarrow> ItemValues \<Rightarrow> error + InvoiceItem" where
  \<comment> \<open>the callback of \<open>formData.items.map\<close>\<close>
  "preview_item r item =
     (let lineSubtotal = dmul (to_number (ItemValues.quantity item))
                              (to_number (ItemValues.rate item));
          discount = ddiv (dmul lineSubtotal (to_number (ItemValues.discountRate item)))
                          (Fin 100);
          subtotalAfterDiscount = dsub lineSubtotal discount;
          tax = ddiv (dmul subtotalAfterDiscount (to_number (ItemValues.taxRate item)))
                     (Fin 100);
          amount = dadd subtotalAfterDiscount tax
      in case toString_method (ItemValues.quantity item) of
           Inl e \<Rightarrow> Inl e
         | Inr quantity_string \<Rightarrow>
      (case toString_method (ItemValues.rate item) of
           Inl e \<Rightarrow> Inl e
         | Inr rate_string \<Rightarrow>
      (case toString_method (ItemValues.taxRate item) of
           Inl e \<Rightarrow> Inl e
         | Inr taxRate_string \<Rightarrow>
      (case toString_method (ItemValues.discountRate item) of
           Inl e \<Rightarrow> Inl e
         | Inr discountRate_string \<Rightarrow>
             Inr \<lparr> CalculatedItem.description = ItemValues.description item,
                   CalculatedItem.quantity = quantity_string,
                   CalculatedItem.rate = rate_string,
                   CalculatedItem.taxRate = taxRate_string,
                   CalculatedItem.discountRate = discountRate_string,
                   CalculatedItem.amount = num_toString amount,
                   InvoiceItem.id' = num_toString r,
                   InvoiceItem.invoiceId = ''preview'' \<rparr>))))"

fun preview_map :: "(nat \<Rightarrow> number) \<Rightarrow> nat \<Rightarrow> ItemValues list \<Rightarrow> error + InvoiceItem list" where
  \<comment> \<open>\<open>map\<close> from index \<open>i\<close> on; the first exception ends it\<close>
  "preview_map random i [] = Inr []"
| "preview_map random i (item # rest) =
     (case preview_item (random i) item of
        Inl e \<Rightarrow> Inl e
      | Inr x \<Rightarrow> (case preview_map random (Suc i) rest of
                    Inl e \<Rightarrow> Inl e
                  | Inr xs \<Rightarrow> Inr (x # xs)))"

definition preview_calculatedItems ::
  "(nat \<Rightarrow> number) \<Rightarrow> ItemValues list \<Rightarrow> error + InvoiceItem list" where
  "preview_calculatedItems random its = preview_map random 0 its"

definition preview_subtotal :: "InvoiceItem list \<Rightarrow> number" where
  "preview_subtotal calculatedItems = foldl (\<lambda>sum item.
     let lineSubtotal = dmul (parseFloat (CalculatedItem.quantity item))
                             (parseFloat (CalculatedItem.rate item))
     in dadd sum lineSubtotal) (Fin 0) calculatedItems"

definition preview_totalDiscount :: "InvoiceItem list \<Rightarrow> number" where
  "preview_totalDiscount calculatedItems = foldl (\<lambda>sum item.
     let lineSubtotal = dmul (parseFloat (CalculatedItem.quantity item))
                             (parseFloat (CalculatedItem.rate item));
         discount = ddiv (dmul lineSubtotal (parseFloat (CalculatedItem.discountRate item)))
                         (Fin 100)
     in dadd sum discount) (Fin 0) calculatedItems"

definition preview_totalTax :: "InvoiceItem list \<Rightarrow> number" where
  "preview_totalTax calculatedItems = foldl (\<lambda>sum item.
     let lineSubtotal = dmul (parseFloat (CalculatedItem.quantity item))
                             (parseFloat (CalculatedItem.rate item));
         discount = ddiv (dmul lineSubtotal (parseFloat (CalculatedItem.discountRate item)))
                         (Fin 100);
         subtotalAfterDiscount = dsub lineSubtotal discount;
         tax = ddiv (dmul subtotalAfterDiscount (parseFloat (CalculatedItem.taxRate item)))
                    (Fin 100)
     in dadd sum tax) (Fin 0) calculatedItems"

definition preview_total :: "InvoiceItem list \<Rightarrow> number" where
  "preview_total calculatedItems =
     dadd (dsub (preview_subtotal calculatedItems) (preview_totalDiscount calculatedItems))
          (preview_totalTax calculatedItems)"

definition handlePreview ::
  "Client list \<Rightarrow> InvoiceWithClient option \<Rightarrow> string option \<Rightarrow> (nat \<Rightarrow> number) \<Rightarrow> int
     \<Rightarrow> FormValues \<Rightarrow> error + InvoiceWithClient" where
  "handlePreview clients invoice nextInvoiceNumber random now formData =
     (case find (\<lambda>c. Client.id' c = FormValues.clientId formData) clients of
        None \<Rightarrow> Inl (Toast ''Error'' ''Please select a client to preview the invoice'')
      | Some selectedClient \<Rightarrow>
          (case preview_calculatedItems random (FormValues.items formData) of
             Inl e \<Rightarrow> Inl e
           | Inr calculatedItems \<Rightarrow>
               Inr \<lparr> Invoice.id' = ''preview'',
                     invoiceNumber =
                       or_default (map_option Invoice.invoiceNumber invoice)
                         (or_default nextInvoiceNumber ''INV-0001''),
                     Invoice.clientId = FormValues.clientId formData,
                     Invoice.date = FormValues.date formData,
                     Invoice.dueDate = FormValues.dueDate formData,
                     Invoice.status = FormValues.status formData,
                     Invoice.currency = FormValues.currency formData,
                     Invoice.subtotal = num_toString (preview_subtotal calculatedItems),
                     Invoice.taxAmount = num_toString (preview_totalTax calculatedItems),
                     Invoice.discountAmount =
                       num_toString (preview_totalDiscount calculatedItems),
                     Invoice.total = num_toString (preview_total calculatedItems),
                     Invoice.notes = (case FormValues.notes formData of
                                None \<Rightarrow> None
                              | Some n \<Rightarrow> if n = [] then None else Some n),
                     Invoice.createdAt = now,
                     InvoiceWithClient.client = Some selectedClient,
                     InvoiceWithClient.items = calculatedItems \<rparr>))"

subsection \<open>Validation and submission\<close>

text \<open>
  The form is checked against \<open>invoiceFormSchema\<close> before \<open>onSubmit\<close> runs. An issue
  has the path of the field (an index written in decimal), a code and the message the
  schema gives, if any. An item holds the numbers that \<open>z.coerce.number()\<close> has made of
  the form values: it leaves a number as it is and refuses \<open>NaN\<close>; \<open>min\<close> and \<open>max\<close>
  are inclusive. The issues come in the order of the fields of the schema.
\<close>

datatype issue_code = invalid_type | too_small | too_big

datatype issue = Issue "string list" issue_code "string option"

definition dlt :: "number \<Rightarrow> number \<Rightarrow> bool" where
  \<comment> \<open>\<open>x < y\<close>\<close>
  "dlt x y = (dle x y \<and> x \<noteq> y)"

definition string_min1 :: "string list \<Rightarrow> string option \<Rightarrow> string \<Rightarrow> issue list" where
  "string_min1 path message s = (if length s < 1 then [Issue path too_small message] else [])"

definition number_min :: "string list \<Rightarrow> number \<Rightarrow> string option \<Rightarrow> number \<Rightarrow> issue list" where
  "number_min path bound message x = (if dlt x bound then [Issue path too_small message] else [])"

definition number_max :: "string list \<Rightarrow> number \<Rightarrow> number \<Rightarrow> issue list" where
  "number_max path bound x = (if dlt bound x then [Issue path too_big None] else [])"

definition coerce_number :: "string list \<Rightarrow> number \<Rightarrow> issue list \<Rightarrow> issue list" where
  "coerce_number path x checks = (if x = NaN then [Issue path invalid_type None] else checks)"

definition coerce_item :: "ItemValues \<Rightarrow> FormItem" where
  \<comment> \<open>\<open>z.coerce.number()\<close> passes \<open>Number(value)\<close> to the checks\<close>
  "coerce_item item =
     \<lparr> FormItem.description = ItemValues.description item,
       FormItem.quantity = to_number (ItemValues.quantity item),
       FormItem.rate = to_number (ItemValues.rate item),
       FormItem.taxRate = to_number (ItemValues.taxRate item),
       FormItem.discountRate = to_number (ItemValues.discountRate item) \<rparr>"

definition coerce_form :: "FormValues \<Rightarrow> InvoiceFormData" where
  "coerce_form formValues =
     \<lparr> InvoiceFormData.clientId = FormValues.clientId formValues,
       InvoiceFormData.date = FormValues.date formValues,
       InvoiceFormData.dueDate = FormValues.dueDate formValues,
       InvoiceFormData.status = FormValues.status formValues,
       InvoiceFormData.currency = FormValues.currency formValues,
       InvoiceFormData.notes = FormValues.notes formValues,
       InvoiceFormData.items = map coerce_item (FormValues.items formValues) \<rparr>"

definition invoiceItemSchema :: "string list \<Rightarrow> FormItem \<Rightarrow> issue list" where
  "invoiceItemSchema path item =
     string_min1 (path @ [''description'']) (Some ''Description is required'')
       (FormItem.description item)
     @ coerce_number (path @ [''quantity'']) (FormItem.quantity item)
         (number_min (path @ [''quantity'']) (round64 (1 / 100))
            (Some ''Quantity must be greater than 0'') (FormItem.quantity item))
     @ coerce_number (path @ [''rate'']) (FormItem.rate item)
         (number_min (path @ [''rate'']) (Fin 0) (Some ''Rate must be non-negative'')
            (FormItem.rate item))
     @ coerce_number (path @ [''taxRate'']) (FormItem.taxRate item)
         (number_min (path @ [''taxRate'']) (Fin 0) None (FormItem.taxRate item)
          @ number_max (path @ [''taxRate'']) (Fin 100) (FormItem.taxRate item))
     @ coerce_number (path @ [''discountRate'']) (FormItem.discountRate item)
         (number_min (path @ [''discountRate'']) (Fin 0) None (FormItem.discountRate item)
          @ number_max (path @ [''discountRate'']) (Fin 100) (FormItem.discountRate item))"

definition invoiceFormSchema :: "InvoiceFormData \<Rightarrow> issue list" where
  "invoiceFormSchema data =
     string_min1 [''clientId''] (Some ''Please select a client'') (InvoiceFormData.clientId data)
     @ string_min1 [''date''] (Some ''Date is required'') (InvoiceFormData.date data)
     @ string_min1 [''dueDate''] (Some ''Due date is required'') (InvoiceFormData.dueDate data)
     @ (if length (InvoiceFormData.items data) < 1
        then [Issue [''items''] too_small (Some ''At least one item is required'')] else [])
     @ concat (map (\<lambda>(i, item). invoiceItemSchema [''items'', digits_of (int i)] item)
                 (enumerate 0 (InvoiceFormData.items data)))"

definition onSubmit ::
  "InvoiceWithClient option \<Rightarrow> string option \<Rightarrow> InvoiceFormData \<Rightarrow> error + request" where
  "onSubmit invoice nextInvoiceNumber data =
     (if invoice \<noteq> None then updateInvoiceMutation invoice data
      else Inr (createInvoiceMutation nextInvoiceNumber data))"

definition handleSubmit ::
  "InvoiceWithClient option \<Rightarrow> string option \<Rightarrow> InvoiceFormData
     \<Rightarrow> issue list + (error + request)" where
  \<comment> \<open>\<open>form.handleSubmit(onSubmit)\<close> with the zod resolver\<close>
  "handleSubmit invoice nextInvoiceNumber data =
     (case invoiceFormSchema data of
        [] \<Rightarrow> Inr (onSubmit invoice nextInvoiceNumber data)
      | i # rest \<Rightarrow> Inl (i # rest))"

section \<open>The storage: invoice numbers and updates\<close>

text \<open>
  \<open>server/storage.ts\<close> over the tables it reads and writes. The settings are a table of
  keys and values, looked up by key.
\<close>

record database =
  settings :: "string \<rightharpoonup> string"
  clients :: "Client list"
  invoices :: "Invoice list"
  invoiceItems :: "InvoiceItem list"

definition getSetting :: "database \<Rightarrow> string \<Rightarrow> string option" where
  "getSetting db key = settings db key"

definition getInvoiceItems :: "database \<Rightarrow> string \<Rightarrow> InvoiceItem list" where
  "getInvoiceItems db iid =
     filter (\<lambda>item. InvoiceItem.invoiceId item = iid) (invoiceItems db)"

definition getInvoice :: "database \<Rightarrow> string \<Rightarrow> InvoiceWithClient option" where
  "getInvoice db iid =
     (case filter (\<lambda>i. Invoice.id' i = iid) (invoices db) of
        [] \<Rightarrow> None
      | result # _ \<Rightarrow>
          Some (Invoice.extend result
            \<lparr> InvoiceWithClient.client =
                find (\<lambda>c. Client.id' c = Invoice.clientId result) (clients db),
              InvoiceWithClient.items = getInvoiceItems db iid \<rparr>))"

fun newest :: "Invoice \<Rightarrow> Invoice list \<Rightarrow> Invoice" where
  "newest best [] = best"
| "newest best (x # xs) =
     newest (if Invoice.createdAt best < Invoice.createdAt x then x else best) xs"

definition lastInvoice :: "database \<Rightarrow> Invoice list" where
  \<comment> \<open>\<open>orderBy(desc(createdAt)).limit(1)\<close>; of the rows created last, the first in the table\<close>
  "lastInvoice db = (case invoices db of [] \<Rightarrow> [] | x # xs \<Rightarrow> [newest x xs])"

definition getNextInvoiceNumber :: "database \<Rightarrow> string" where
  "getNextInvoiceNumber db =
     (let prefix = or_default (getSetting db ''invoice_prefix'') ''INV-''
      in case lastInvoice db of
           [] \<Rightarrow> prefix @ ''0001''
         | latest # _ \<Rightarrow>
             let lastNumber = replace (Invoice.invoiceNumber latest) prefix [];
                 nextNumber = padStart (num_toString (dadd (parseInt lastNumber) (Fin 1))) 4 ''0''
             in prefix @ nextNumber)"

definition set_fields :: "invoicePayload \<Rightarrow> Invoice \<Rightarrow> Invoice" where
  \<comment> \<open>\<open>.set(updateInvoice)\<close>: a column is written when the object has the field\<close>
  "set_fields u i =
     i \<lparr> Invoice.invoiceNumber :=
           (case invoicePayload.invoiceNumber u of None \<Rightarrow> Invoice.invoiceNumber i | Some v \<Rightarrow> v),
         Invoice.clientId :=
           (case invoicePayload.clientId u of None \<Rightarrow> Invoice.clientId i | Some v \<Rightarrow> v),
         Invoice.date := (case invoicePayload.date u of None \<Rightarrow> Invoice.date i | Some v \<Rightarrow> v),
         Invoice.dueDate :=
           (case invoicePayload.dueDate u of None \<Rightarrow> Invoice.dueDate i | Some v \<Rightarrow> v),
         Invoice.status :=
           (case invoicePayload.status u of None \<Rightarrow> Invoice.status i | Some v \<Rightarrow> v),
         Invoice.currency :=
           (case invoicePayload.currency u of None \<Rightarrow> Invoice.currency i | Some v \<Rightarrow> v),
         Invoice.subtotal :=
           (case invoicePayload.subtotal u of None \<Rightarrow> Invoice.subtotal i | Some v \<Rightarrow> v),
         Invoice.taxAmount :=
           (case invoicePayload.taxAmount u of None \<Rightarrow> Invoice.taxAmount i | Some v \<Rightarrow> v),
         Invoice.discountAmount :=
           (case invoicePayload.discountAmount u of
              None \<Rightarrow> Invoice.discountAmount i | Some v \<Rightarrow> v),
         Invoice.total :=
           (case invoicePayload.total u of None \<Rightarrow> Invoice.total i | Some v \<Rightarrow> v),
         Invoice.notes :=
           (case invoicePayload.notes u of None \<Rightarrow> Invoice.notes i | Some v \<Rightarrow> Some v) \<rparr>"

definition no_values :: "invoicePayload \<Rightarrow> bool" where
  "no_values u =
     (invoicePayload.clientId u = None \<and> invoicePayload.date u = None
      \<and> invoicePayload.dueDate u = None \<and> invoicePayload.status u = None
      \<and> invoicePayload.currency u = None \<and> invoicePayload.notes u = None
      \<and> invoicePayload.invoiceNumber u = None \<and> invoicePayload.subtotal u = None
      \<and> invoicePayload.taxAmount u = None \<and> invoicePayload.discountAmount u = None
      \<and> invoicePayload.total u = None)"

definition updateInvoice ::
  "(nat \<Rightarrow> string) \<Rightarrow> database \<Rightarrow> string \<Rightarrow> invoicePayload \<Rightarrow> CalculatedItem list option
     \<Rightarrow> database \<times> (error + InvoiceWithClient option)" where
  \<comment> \<open>the tables afterwards and what the call returns or throws; \<open>genId k\<close> is the key the
      database gives the \<open>k\<close>-th inserted item; the query builder throws on an update
      that sets no column and on an insert of no rows, and nothing is rolled back\<close>
  "updateInvoice genId db iid upd its =
     (if no_values upd then (db, Inl (Error ''No values to set''))
      else
        let db1 = db \<lparr> invoices :=
                     map (\<lambda>i. if Invoice.id' i = iid then set_fields upd i else i)
                       (invoices db) \<rparr>
        in if filter (\<lambda>i. Invoice.id' i = iid) (invoices db1) = [] then (db1, Inr None)
           else case its of
                  None \<Rightarrow> (db1, Inr (getInvoice db1 iid))
                | Some new_items \<Rightarrow>
                    let db2 = db1 \<lparr> invoiceItems :=
                                filter (\<lambda>item. InvoiceItem.invoiceId item \<noteq> iid)
                                  (invoiceItems db1) \<rparr>
                    in if new_items = []
                       then (db2, Inl (Error ''values() must be called with at least one value''))
                       else
                         let db3 = db2 \<lparr> invoiceItems := invoiceItems db2 @
                                     map (\<lambda>(k, item). CalculatedItem.extend item
                                            \<lparr> InvoiceItem.id' = genId k,
                                              InvoiceItem.invoiceId = iid \<rparr>)
                                       (enumerate 0 new_items) \<rparr>
                         in (db3, Inr (getInvoice db3 iid)))"

text \<open>A database with no settings and a single invoice, of a given number, for the examples.\<close>

definition one_invoice_db :: "string \<Rightarrow> database" where
  "one_invoice_db number =
     \<lparr> settings = Map.empty, clients = [],
       invoices = [\<lparr> Invoice.id' = ''1'', Invoice.invoiceNumber = number,
                     Invoice.clientId = ''c1'', Invoice.date = ''2025-01-01'',
                     Invoice.dueDate = ''2025-01-31'', Invoice.status = draft,
                     Invoice.currency = INR, Invoice.subtotal = ''0'', Invoice.taxAmount = ''0'',
                     Invoice.discountAmount = ''0'', Invoice.total = ''0'', Invoice.notes = None,
                     Invoice.createdAt = 1 \<rparr>],
       invoiceItems = [] \<rparr>"

subsection \<open>The calculation as the specification words it\<close>

text \<open>
  Per line item, in order: the line subtotal, the discount, the subtotal after discount,
  the tax, the amount; and the sum of a list of numbers, from zero, left to right.
\<close>

definition spec_lineSubtotal :: "number \<Rightarrow> number \<Rightarrow> number" where
  "spec_lineSubtotal q r = dmul q r"

definition spec_discount :: "number \<Rightarrow> number \<Rightarrow> number \<Rightarrow> number" where
  "spec_discount q r d = ddiv (dmul (spec_lineSubtotal q r) d) (Fin 100)"

definition spec_afterDiscount :: "number \<Rightarrow> number \<Rightarrow> number \<Rightarrow> number" where
  "spec_afterDiscount q r d = dsub (spec_lineSubtotal q r) (spec_discount q r d)"

definition spec_tax :: "number \<Rightarrow> number \<Rightarrow> number \<Rightarrow> number \<Rightarrow> number" where
  "spec_tax q r d t = ddiv (dmul (spec_afterDiscount q r d) t) (Fin 100)"

definition spec_amount :: "number \<Rightarrow> number \<Rightarrow> number \<Rightarrow> number \<Rightarrow> number" where
  "spec_amount q r d t = dadd (spec_afterDiscount q r d) (spec_tax q r d t)"

definition dsum :: "number list \<Rightarrow> number" where
  "dsum xs = foldl dadd (Fin 0) xs"

text \<open>The valid line item as the specification words it.\<close>

definition spec_valid_item :: "FormItem \<Rightarrow> bool" where
  "spec_valid_item item =
     (dlt (Fin 0) (FormItem.quantity item) \<and> dle (Fin 0) (FormItem.rate item)
      \<and> dle (Fin 0) (FormItem.taxRate item) \<and> dle (FormItem.taxRate item) (Fin 100)
      \<and> dle (Fin 0) (FormItem.discountRate item) \<and> dle (FormItem.discountRate item) (Fin 100))"

definition is_form_item :: "FormItem \<Rightarrow> bool" where
  \<comment> \<open>the four numbers of an item are JavaScript numbers\<close>
  "is_form_item item =
     (is_double (FormItem.quantity item) \<and> is_double (FormItem.rate item)
      \<and> is_double (FormItem.taxRate item) \<and> is_double (FormItem.discountRate item))"

section \<open>Decimal digits\<close>

lemma digit_val_digit_char: "0 \<le> d \<Longrightarrow> d < 10 \<Longrightarrow> digit_val (digit_char d) = d"
  by (simp add: digit_val_def digit_char_def of_char_of)

lemma is_digit_digit_char: "0 \<le> d \<Longrightarrow> d < 10 \<Longrightarrow> is_digit (digit_char d)"
  by (simp add: is_digit_def digit_char_def of_char_of)

lemma digits_of_nonempty: "digits_of n \<noteq> []"
  by (subst digits_of.simps) simp

lemma digits_of_all_digits: "0 \<le> n \<Longrightarrow> list_all is_digit (digits_of n)"
proof (induction n rule: digits_of.induct)
  case (1 n)
  show ?case
  proof (cases "n < 10")
    case True
    with 1 show ?thesis by (subst digits_of.simps) (simp add: is_digit_digit_char)
  next
    case False
    then have "list_all is_digit (digits_of (n div 10))" using 1 by simp
    moreover have "is_digit (digit_char (n mod 10))" by (simp add: is_digit_digit_char)
    ultimately show ?thesis using False by (subst digits_of.simps) simp
  qed
qed

lemma foldl_digits:
  "foldl (\<lambda>a c. 10 * a + digit_val c) a xs =
     a * 10 ^ length xs + foldl (\<lambda>a c. 10 * a + digit_val c) 0 xs"
proof (induction xs arbitrary: a)
  case Nil
  then show ?case by simp
next
  case (Cons x xs)
  show ?case
    using Cons[of "10 * a + digit_val x"] Cons[of "digit_val x"]
    by (simp add: algebra_simps)
qed

lemma int_of_digits_append:
  "int_of_digits (xs @ ys) = int_of_digits xs * 10 ^ length ys + int_of_digits ys"
  unfolding int_of_digits_def foldl_append
  by (rule foldl_digits)

lemma int_of_digits_Nil [simp]: "int_of_digits [] = 0"
  by (simp add: int_of_digits_def)

lemma int_of_digits_single [simp]: "int_of_digits [c] = digit_val c"
  by (simp add: int_of_digits_def)

lemma int_of_digits_digits_of: "0 \<le> n \<Longrightarrow> int_of_digits (digits_of n) = n"
proof (induction n rule: digits_of.induct)
  case (1 n)
  show ?case
  proof (cases "n < 10")
    case True
    with 1 show ?thesis by (subst digits_of.simps) (simp add: digit_val_digit_char)
  next
    case False
    then have "int_of_digits (digits_of (n div 10)) = n div 10" using 1 by simp
    then show ?thesis using False
      by (subst digits_of.simps) (simp add: int_of_digits_append digit_val_digit_char)
  qed
qed

lemma int_of_digits_zeros [simp]: "int_of_digits (replicate m (CHR ''0'')) = 0"
proof (induction m)
  case 0
  then show ?case by simp
next
  case (Suc m)
  have "replicate (Suc m) (CHR ''0'') = replicate m (CHR ''0'') @ [CHR ''0'']"
    by (simp add: replicate_append_same)
  then show ?case using Suc by (simp add: int_of_digits_append digit_val_def del: replicate_Suc)
qed

lemma int_of_digits_nonneg: "list_all is_digit ds \<Longrightarrow> 0 \<le> int_of_digits ds"
  by (induction ds rule: rev_induct) (simp_all add: int_of_digits_append digit_val_def is_digit_def)

section \<open>Rounding to a number\<close>

text \<open>
  The exponent that \<open>round64\<close> picks is the binary logarithm of its argument, integers
  below \<open>2\<^sup>5\<^sup>3\<close> are numbers, and nothing from \<open>2\<^sup>5\<^sup>3\<close> on rounds below \<open>2\<^sup>5\<^sup>3\<close>.
\<close>

lemma pow2_powi: "pow2 k = power_int 2 k"
  by (simp add: pow2_def power_int_def inverse_eq_divide power_one_over)

lemma pow10_powi: "pow10 k = power_int 10 k"
  by (simp add: pow10_def power_int_def inverse_eq_divide power_one_over)

lemma pow2_pos [simp]: "0 < pow2 k"
  by (simp add: pow2_powi)

lemma pow10_pos [simp]: "0 < pow10 k"
  by (simp add: pow10_powi)

lemma pow2_add: "pow2 (a + b) = pow2 a * pow2 b"
  by (simp add: pow2_powi power_int_add)

lemma pow10_add: "pow10 (a + b) = pow10 a * pow10 b"
  by (simp add: pow10_powi power_int_add)

lemma pow2_nat: "pow2 (int n) = 2 ^ n"
  by (simp add: pow2_def)

lemma pow10_nat: "pow10 (int n) = 10 ^ n"
  by (simp add: pow10_def)

lemma pow2_mono: "a \<le> b \<Longrightarrow> pow2 a \<le> pow2 b"
  by (simp add: pow2_powi power_int_increasing)

lemma pow2_strict_mono: "a < b \<Longrightarrow> pow2 a < pow2 b"
  by (simp add: pow2_powi power_int_strict_increasing)

lemma bitlen_bounds:
  "0 < n \<Longrightarrow> 0 < bitlen n \<and> 2 ^ nat (bitlen n - 1) \<le> n \<and> n < 2 ^ nat (bitlen n)"
proof (induction n rule: bitlen.induct)
  case (1 n)
  show ?case
  proof (cases "n div 2 = 0")
    case True
    with 1(2) have "n = 1" by presburger
    then show ?thesis by (simp add: bitlen.simps)
  next
    case False
    with 1(2) have pos: "0 < n div 2" by presburger
    define b where "b = bitlen (n div 2)"
    have ih: "0 < b" "2 ^ nat (b - 1) \<le> n div 2" "n div 2 < 2 ^ nat b"
      using 1(1) 1(2) pos by (simp_all add: b_def)
    have bl: "bitlen n = 1 + b" using 1(2) by (subst bitlen.simps) (simp add: b_def)
    have e1: "(2::int) ^ nat (1 + b - 1) = 2 * 2 ^ nat (b - 1)"
      using ih(1) by (simp add: power_Suc[symmetric] del: power_Suc)
    have e2: "(2::int) ^ nat (1 + b) = 2 * 2 ^ nat b"
      using ih(1) by (simp add: power_Suc[symmetric] nat_add_distrib del: power_Suc)
    have "2 * 2 ^ nat (b - 1) \<le> n" using ih(2) by presburger
    moreover have "n < 2 * 2 ^ nat b" using ih(3) by presburger
    ultimately show ?thesis using ih(1) unfolding bl e1 e2 by simp
  qed
qed

lemma bitlen_pow2_bounds:
  assumes "0 < n"
  shows "pow2 (bitlen n - 1) \<le> of_int n" "of_int n < pow2 (bitlen n)"
proof -
  from bitlen_bounds[OF assms] have b: "0 < bitlen n" "2 ^ nat (bitlen n - 1) \<le> n"
    "n < 2 ^ nat (bitlen n)" by simp_all
  have "(of_int (2 ^ nat (bitlen n - 1)) :: rat) \<le> of_int n" using b(2) by (simp only: of_int_le_iff)
  then show "pow2 (bitlen n - 1) \<le> of_int n" using b(1) by (simp add: pow2_def)
  have "(of_int n :: rat) < of_int (2 ^ nat (bitlen n))" using b(3) by (simp only: of_int_less_iff)
  then show "of_int n < pow2 (bitlen n)" using b(1) by (simp add: pow2_def)
qed

lemma ilog2_bounds:
  assumes "0 < a"
  shows "pow2 (ilog2 a) \<le> a" "a < pow2 (ilog2 a + 1)"
proof -
  obtain p q where pq: "quotient_of a = (p, q)" by (cases "quotient_of a")
  have q: "0 < q" using pq by (rule quotient_of_denom_pos)
  have a: "a = of_int p / of_int q" using pq by (rule quotient_of_div)
  have p: "0 < p" using assms q by (simp add: a zero_less_divide_iff)
  define d where "d = bitlen p - bitlen q"
  note bp = bitlen_pow2_bounds[OF p] and bq = bitlen_pow2_bounds[OF q]
  have qpos: "(0::rat) < of_int q" using q by simp
  have up: "a < pow2 (d + 1)"
  proof -
    have "of_int p < pow2 (bitlen p)" by (rule bp)
    also have "\<dots> = pow2 (d + 1) * pow2 (bitlen q - 1)"
      by (simp add: d_def pow2_add[symmetric])
    also have "\<dots> \<le> pow2 (d + 1) * of_int q"
      using bq(1) by (simp add: mult_left_mono)
    finally show ?thesis using qpos by (simp add: a pos_divide_less_eq)
  qed
  have lo: "pow2 (d - 1) < a"
  proof -
    have "pow2 (d - 1) * of_int q < pow2 (d - 1) * pow2 (bitlen q)"
      using bq(2) by (simp add: mult_strict_left_mono)
    also have "\<dots> = pow2 (bitlen p - 1)"
      by (simp add: d_def pow2_add[symmetric])
    also have "\<dots> \<le> of_int p" by (rule bp)
    finally show ?thesis using qpos by (simp add: a pos_less_divide_eq)
  qed
  have il: "ilog2 a = (if pow2 d \<le> a then d else d - 1)"
    by (simp add: ilog2_def pq d_def Let_def)
  show "pow2 (ilog2 a) \<le> a" using lo by (simp add: il)
  show "a < pow2 (ilog2 a + 1)" using up by (auto simp add: il)
qed

lemma ilog2_unique:
  assumes "0 < a" "pow2 k \<le> a" "a < pow2 (k + 1)"
  shows "ilog2 a = k"
proof -
  note b = ilog2_bounds[OF assms(1)]
  have "\<not> ilog2 a < k"
  proof
    assume "ilog2 a < k"
    then have "pow2 (ilog2 a + 1) \<le> pow2 k" by (intro pow2_mono) simp
    with b(2) assms(2) show False by simp
  qed
  moreover have "\<not> k < ilog2 a"
  proof
    assume "k < ilog2 a"
    then have "pow2 (k + 1) \<le> pow2 (ilog2 a)" by (intro pow2_mono) simp
    with b(1) assms(3) show False by simp
  qed
  ultimately show ?thesis by simp
qed

lemma round64_pos:
  assumes "0 < x"
  shows "round64 x =
    (if 1024 \<le> max (ilog2 x) (- 1022)
        \<or> (max (ilog2 x) (- 1022) = 1023
            \<and> round_half_even (x / pow2 (max (ilog2 x) (- 1022) - 52)) = 2 ^ 53)
     then PosInf
     else Fin (of_int (round_half_even (x / pow2 (max (ilog2 x) (- 1022) - 52)))
               * pow2 (max (ilog2 x) (- 1022) - 52)))"
proof -
  have f: "x \<noteq> 0" "\<bar>x\<bar> = x" "\<not> x < 0" using assms by simp_all
  show ?thesis unfolding round64_def Let_def by (simp only: f if_False)
qed

lemma round64_neg_pos:
  assumes "0 < x"
  shows "round64 (- x) = dneg (round64 x)"
proof -
  have f: "- x \<noteq> 0" "\<bar>- x\<bar> = x" "- x < 0" "x \<noteq> 0" "\<bar>x\<bar> = x" "\<not> x < 0"
    using assms by simp_all
  show ?thesis unfolding round64_def Let_def
    by (simp only: f if_False if_True) (simp only: dneg.simps if_distrib[of dneg])
qed

lemma dneg_dneg [simp]: "dneg (dneg x) = x"
  by (cases x) simp_all

lemma round64_neg: "round64 (- x) = dneg (round64 x)"
proof -
  consider "x = 0" | "0 < x" | "0 < - x" by linarith
  then show ?thesis
  proof cases
    case 1
    then show ?thesis by (simp add: round64_def)
  next
    case 2
    then show ?thesis by (rule round64_neg_pos)
  next
    case 3
    from round64_neg_pos[OF 3] show ?thesis by simp
  qed
qed

lemma round_half_even_of_int [simp]: "round_half_even (of_int z) = z"
  by (simp add: round_half_even_def)

lemma round_half_even_ge_floor: "\<lfloor>x\<rfloor> \<le> round_half_even x"
  by (simp add: round_half_even_def Let_def)

lemma round64_Fin_form:
  assumes "round64 r = Fin r" "0 < r"
  shows "\<exists>m k. r = of_int m * pow2 k \<and> - 1074 \<le> k"
proof -
  define e where "e = max (ilog2 r) (- 1022)"
  define m where "m = round_half_even (r / pow2 (e - 52))"
  have "round64 r = (if 1024 \<le> e \<or> (e = 1023 \<and> m = 2 ^ 53) then PosInf
      else Fin (of_int m * pow2 (e - 52)))"
    unfolding e_def m_def by (rule round64_pos[OF assms(2)])
  with assms(1) have "r = of_int m * pow2 (e - 52)"
    by (auto split: if_splits)
  moreover have "- 1074 \<le> e - 52" by (simp add: e_def)
  ultimately show ?thesis by blast
qed

lemma pow2_times_pow10_int:
  assumes "- int N \<le> k"
  shows "\<exists>z. of_int m * pow2 k * pow10 (int N) = of_int z"
proof -
  have "pow2 k * pow10 (int N) = pow2 k * (2 ^ N * 5 ^ N)"
    by (simp add: pow10_nat power_mult_distrib[symmetric])
  also have "\<dots> = (pow2 k * pow2 (int N)) * 5 ^ N"
    by (simp add: pow2_nat)
  also have "pow2 k * pow2 (int N) = pow2 (k + int N)"
    by (simp add: pow2_add)
  also have "\<dots> = 2 ^ nat (k + int N)"
    using assms by (simp add: pow2_def)
  finally have "of_int m * pow2 k * pow10 (int N) = of_int (m * 2 ^ nat (k + int N) * 5 ^ N)"
    by simp
  then show ?thesis by blast
qed

lemma pow10_inverse: "pow10 k * pow10 (- k) = 1"
  using pow10_add[of k "- k"] by (simp add: pow10_def)

lemma exact_expansion_rounds:
  assumes "round64 r = Fin r" "0 < r"
  shows "rounds_to r (fst (exact_expansion r)) (snd (exact_expansion r))"
proof -
  obtain m k where mk: "r = of_int m * pow2 k" "- 1074 \<le> k"
    using round64_Fin_form[OF assms] by blast
  have "- int 1074 \<le> k" using mk(2) by simp
  from pow2_times_pow10_int[OF this, of m]
  obtain z where z: "r * pow10 (int 1074) = of_int z" using mk(1) by auto
  have z': "r * pow10 1074 = of_int z" using z by simp
  have fl: "\<lfloor>r * pow10 1074\<rfloor> = z" by (simp only: z' floor_of_int)
  have "0 < r * pow10 1074" using assms(2) by simp
  then have zpos: "0 < z" by (simp only: z' of_int_0_less_iff)
  have "of_int z * pow10 (- 1074) = r * (pow10 1074 * pow10 (- 1074))"
    by (simp only: z'[symmetric] mult.assoc)
  then have rb: "of_int z * pow10 (- 1074) = r"
    by (simp only: pow10_inverse mult_1_right)
  show ?thesis
    unfolding rounds_to_def exact_expansion_def fst_conv snd_conv fl rb
    using zpos assms(1) by simp
qed

lemma round64_small_int:
  assumes "0 < M" "M < 2 ^ 53"
  shows "round64 (of_int M) = Fin (of_int M)"
proof -
  define a :: rat where "a = of_int M"
  have apos: "0 < a" using assms(1) by (simp add: a_def)
  have a1: "pow2 0 \<le> a" using assms(1) by (simp add: a_def pow2_def)
  have a53: "a < pow2 53"
  proof -
    have "(of_int M :: rat) < of_int (2 ^ 53)" using assms(2) by (simp only: of_int_less_iff)
    then show ?thesis by (simp add: a_def pow2_def)
  qed
  define e where "e = ilog2 a"
  note b = ilog2_bounds[OF apos, folded e_def]
  have e_lo: "0 \<le> e"
  proof (rule ccontr)
    assume "\<not> 0 \<le> e"
    then have "pow2 (e + 1) \<le> pow2 0" by (intro pow2_mono) simp
    with b(2) a1 show False by simp
  qed
  have e_hi: "e \<le> 52"
  proof (rule ccontr)
    assume "\<not> e \<le> 52"
    then have "pow2 53 \<le> pow2 e" by (intro pow2_mono) simp
    with b(1) a53 show False by simp
  qed
  have q: "pow2 (e - 52) = 1 / 2 ^ nat (52 - e)"
    using e_hi by (auto simp add: pow2_def)
  have quot: "a / pow2 (e - 52) = of_int (M * 2 ^ nat (52 - e))"
    by (simp add: q a_def)
  have mx: "max e (- 1022) = e" using e_lo by simp
  have "round64 a = Fin (of_int (M * 2 ^ nat (52 - e)) * pow2 (e - 52))"
    unfolding round64_pos[OF apos] e_def[symmetric] mx quot round_half_even_of_int
    using e_hi by simp
  also have "of_int (M * 2 ^ nat (52 - e)) * pow2 (e - 52) = a"
    by (simp add: q a_def)
  finally show ?thesis by (simp add: a_def)
qed

lemma round64_large:
  assumes "2 ^ 53 \<le> a"
  shows "round64 a = PosInf \<or> (\<exists>v. round64 a = Fin v \<and> 2 ^ 53 \<le> v)"
proof -
  have apos: "0 < a" using assms by (rule less_le_trans[rotated]) simp
  define e where "e = ilog2 a"
  note b = ilog2_bounds[OF apos, folded e_def]
  have a53: "pow2 53 \<le> a" using assms by (simp add: pow2_def)
  have e_lo: "53 \<le> e"
  proof (rule ccontr)
    assume "\<not> 53 \<le> e"
    then have "pow2 (e + 1) \<le> pow2 53" by (intro pow2_mono) simp
    with b(2) a53 show False by simp
  qed
  have mx: "max e (- 1022) = e" using e_lo by simp
  define q where "q = pow2 (e - 52)"
  have qpos: "0 < q" by (simp add: q_def)
  define m where "m = round_half_even (a / q)"
  have "pow2 e = pow2 52 * q" by (simp add: q_def pow2_add[symmetric])
  then have "pow2 52 * q \<le> a" using b(1) by simp
  then have "pow2 52 \<le> a / q" using qpos by (simp add: pos_le_divide_eq)
  then have "(of_int (2 ^ 52) :: rat) \<le> a / q" by (simp add: pow2_def)
  then have fl: "2 ^ 52 \<le> \<lfloor>a / q\<rfloor>" by (simp only: le_floor_iff)
  have m52: "2 ^ 52 \<le> m"
    unfolding m_def by (rule order_trans[OF fl round_half_even_ge_floor])
  have "(of_int (2 ^ 52) :: rat) \<le> of_int m" using m52 by (simp only: of_int_le_iff)
  then have "pow2 52 \<le> of_int m" by (simp add: pow2_def)
  then have "pow2 52 * q \<le> of_int m * q" using qpos by (simp add: mult_right_mono)
  then have "pow2 e \<le> of_int m * q" by (simp add: \<open>pow2 e = pow2 52 * q\<close>)
  moreover have "pow2 53 \<le> pow2 e" using e_lo by (rule pow2_mono)
  ultimately have v: "2 ^ 53 \<le> of_int m * q" by (simp add: pow2_def)
  have "round64 a = (if 1024 \<le> e \<or> (e = 1023 \<and> m = 2 ^ 53) then PosInf
      else Fin (of_int m * q))"
    unfolding round64_pos[OF apos] e_def[symmetric] mx q_def[symmetric] m_def[symmetric] ..
  then show ?thesis using v by (auto split: if_splits)
qed

section \<open>Printing and reading numbers\<close>

text \<open>
  Every layout of \<open>Number.prototype.toString\<close> is read back by \<open>parseFloat\<close> as the
  number that was printed, and an integer below \<open>2\<^sup>5\<^sup>3\<close> prints as its decimal digits.
\<close>

lemma candidate_Some:
  assumes "candidate r k = Some (c, e)"
  shows "rounds_to r c e" "e = dec_exp r - k"
  using assms by (auto simp add: candidate_def Let_def split: if_splits)

lemma shortest_from_rounds:
  assumes "rounds_to r (fst (exact_expansion r)) (snd (exact_expansion r))"
  shows "rounds_to r (fst (shortest_from r ks)) (snd (shortest_from r ks))"
proof (induction ks)
  case Nil
  then show ?case using assms by simp
next
  case (Cons k ks)
  show ?case
  proof (cases "candidate r k")
    case None
    then show ?thesis using Cons by simp
  next
    case (Some ce)
    then show ?thesis using candidate_Some(1)[of r k "fst ce" "snd ce"] by simp
  qed
qed

lemma shortest_rounds:
  assumes "round64 r = Fin r" "0 < r"
  shows "rounds_to r (fst (shortest r)) (snd (shortest r))"
  unfolding shortest_def
  by (rule shortest_from_rounds[OF exact_expansion_rounds[OF assms]])

lemma takeWhile_zero_replicate:
  "takeWhile (\<lambda>c. c = z) xs = replicate (length (takeWhile (\<lambda>c. c = z) xs)) z"
  by (induction xs) simp_all

lemma strip_zeros_decomp:
  "ds0 = strip_zeros ds0 @ replicate (length ds0 - length (strip_zeros ds0)) (CHR ''0'')"
proof -
  define tw where "tw = takeWhile (\<lambda>c. c = CHR ''0'') (rev ds0)"
  define dw where "dw = dropWhile (\<lambda>c. c = CHR ''0'') (rev ds0)"
  have split: "rev ds0 = tw @ dw" by (simp add: tw_def dw_def)
  have "rev (rev ds0) = rev (tw @ dw)" by (simp only: split)
  then have ds0: "ds0 = rev dw @ rev tw" by simp
  have tw: "tw = replicate (length tw) (CHR ''0'')"
    unfolding tw_def by (rule takeWhile_zero_replicate)
  have "rev tw = rev (replicate (length tw) (CHR ''0''))" using tw by simp
  then have rtw: "rev tw = replicate (length tw) (CHR ''0'')" by simp
  have len: "length ds0 = length dw + length tw" using ds0 by (metis length_append length_rev)
  have st: "strip_zeros ds0 = rev dw" by (simp add: strip_zeros_def dw_def)
  have "length tw = length ds0 - length (strip_zeros ds0)" by (simp add: st len)
  then show ?thesis using ds0 rtw st by simp
qed

lemma strip_zeros_digits: "list_all is_digit ds0 \<Longrightarrow> list_all is_digit (strip_zeros ds0)"
proof -
  assume a: "list_all is_digit ds0"
  have "list_all is_digit (strip_zeros ds0
      @ replicate (length ds0 - length (strip_zeros ds0)) (CHR ''0''))"
    using a strip_zeros_decomp[of ds0] by simp
  then show ?thesis by (simp only: list_all_append)
qed

lemma strip_zeros_value:
  "int_of_digits ds0 =
     int_of_digits (strip_zeros ds0) * 10 ^ (length ds0 - length (strip_zeros ds0))"
proof -
  have "int_of_digits ds0 = int_of_digits (strip_zeros ds0
      @ replicate (length ds0 - length (strip_zeros ds0)) (CHR ''0''))"
    using strip_zeros_decomp[of ds0] by simp
  then show ?thesis by (simp add: int_of_digits_append)
qed

lemma strip_zeros_nonempty: "0 < int_of_digits ds0 \<Longrightarrow> strip_zeros ds0 \<noteq> []"
  using strip_zeros_value[of ds0] by auto

lemma strip_zeros_length: "length (strip_zeros ds0) \<le> length ds0"
  using length_dropWhile_le[of "\<lambda>c. c = CHR ''0''" "rev ds0"] by (simp add: strip_zeros_def)

lemma digit_not_ws: "is_digit c \<Longrightarrow> \<not> is_ws c"
  by (auto simp add: is_digit_def is_ws_def)

lemma digit_not_special:
  assumes "is_digit c"
  shows "c \<noteq> CHR ''+''" "c \<noteq> CHR ''-''" "c \<noteq> CHR ''.''" "c \<noteq> CHR ''e''"
    "c \<noteq> CHR ''E''" "c \<noteq> CHR ''I''"
  using assms by (auto simp add: is_digit_def)

lemma special_not_digit [simp]:
  "\<not> is_digit (CHR ''.'')" "\<not> is_digit (CHR ''e'')" "\<not> is_digit (CHR ''+'')"
  "\<not> is_digit (CHR ''-'')"
  by (simp_all add: is_digit_def)

lemma zero_is_digit [simp]: "is_digit (CHR ''0'')"
  by (simp add: is_digit_def)

lemma takeWhile_digits:
  assumes "list_all is_digit ip" "rest = [] \<or> \<not> is_digit (hd rest)"
  shows "takeWhile is_digit (ip @ rest) = ip" "dropWhile is_digit (ip @ rest) = rest"
proof -
  have a: "\<And>x. x \<in> set ip \<Longrightarrow> is_digit x" using assms(1) by (simp add: list_all_iff)
  have t: "takeWhile is_digit rest = []" using assms(2) by (cases rest) auto
  have d: "dropWhile is_digit rest = rest" using assms(2) by (cases rest) auto
  show "takeWhile is_digit (ip @ rest) = ip" using a t by (simp add: takeWhile_append2)
  show "dropWhile is_digit (ip @ rest) = rest" using a d by (simp add: dropWhile_append2)
qed

lemma exponent_part_Nil [simp]: "exponent_part [] = 0"
  by (simp add: exponent_part_def)

lemma takeWhile_digits_of: "0 \<le> n \<Longrightarrow> takeWhile is_digit (digits_of n) = digits_of n"
  using takeWhile_digits(1)[OF digits_of_all_digits, of n "[]"] by simp

lemma exponent_part_layout:
  "exponent_part (CHR ''e'' # (if m < 0 then ''-'' else ''+'') @ digits_of \<bar>m\<bar>) = m"
proof (cases "m < 0")
  case True
  then have "exponent_part (CHR ''e'' # ''-'' @ digits_of (- m)) = m"
    by (simp add: exponent_part_def drop_sign_def is_neg_def takeWhile_digits_of
        int_of_digits_digits_of digits_of_nonempty Let_def)
  then show ?thesis using True by simp
next
  case False
  then have "exponent_part (CHR ''e'' # ''+'' @ digits_of m) = m"
    by (simp add: exponent_part_def drop_sign_def is_neg_def takeWhile_digits_of
        int_of_digits_digits_of digits_of_nonempty Let_def)
  then show ?thesis using False by simp
qed

lemma str_decimal_literal_digits:
  assumes "ip \<noteq> []" "list_all is_digit ip" "rest = [] \<or> \<not> is_digit (hd rest)"
  shows "str_decimal_literal (ip @ rest) =
    (let dot = (case rest of [] \<Rightarrow> False | c # _ \<Rightarrow> c = CHR ''.'');
         fp = (if dot then takeWhile is_digit (tl rest) else []);
         r2 = (if dot then dropWhile is_digit (tl rest) else rest)
     in round64 (of_int (int_of_digits (ip @ fp)) * pow10 (exponent_part r2 - int (length fp))))"
proof -
  obtain c cs where ip: "ip = c # cs" using assms(1) by (cases ip) auto
  have c: "is_digit c" using assms(2) by (simp add: ip)
  have inf: "take 8 (ip @ rest) \<noteq> ''Infinity''"
    using digit_not_special(6)[OF c] by (auto simp add: ip)
  note tw = takeWhile_digits[OF assms(2,3)]
  show ?thesis
    unfolding str_decimal_literal_def tw Let_def using inf assms(1) by simp
qed

lemma list_all_take_drop:
  assumes "list_all is_digit ds"
  shows "list_all is_digit (take m ds)" "list_all is_digit (drop m ds)"
  using assms by (auto simp add: list_all_iff dest: in_set_takeD in_set_dropD)

lemma list_all_zeros [simp]: "list_all is_digit (replicate m (CHR ''0''))"
  by (simp add: list_all_iff)

lemma int_of_digits_leading_zeros:
  "int_of_digits (replicate m (CHR ''0'') @ ds) = int_of_digits ds"
  by (simp add: int_of_digits_append)

lemma parse_layout_integer:
  assumes "ds \<noteq> []" "list_all is_digit ds"
  shows "str_decimal_literal (ds @ replicate m (CHR ''0'')) =
     round64 (of_int (int_of_digits ds) * pow10 (int m))"
proof -
  have a: "ds @ replicate m (CHR ''0'') \<noteq> []" using assms(1) by simp
  have b: "list_all is_digit (ds @ replicate m (CHR ''0''))" using assms(2) by simp
  have "str_decimal_literal ((ds @ replicate m (CHR ''0'')) @ []) =
      round64 (of_int (int_of_digits (ds @ replicate m (CHR ''0''))) * pow10 0)"
    by (subst str_decimal_literal_digits[OF a b]) simp_all
  then show ?thesis by (simp add: int_of_digits_append pow10_nat pow10_def)
qed

lemma parse_layout_point:
  assumes "ip \<noteq> []" "list_all is_digit ip" "list_all is_digit fp"
  shows "str_decimal_literal (ip @ CHR ''.'' # fp) =
     round64 (of_int (int_of_digits (ip @ fp)) * pow10 (- int (length fp)))"
proof -
  have tw: "takeWhile is_digit fp = fp" "dropWhile is_digit fp = []"
    using takeWhile_digits[OF assms(3), of "[]"] by simp_all
  show ?thesis
    by (subst str_decimal_literal_digits[OF assms(1,2)]) (simp_all add: tw)
qed

lemma parse_layout_exp:
  assumes "ip \<noteq> []" "list_all is_digit ip"
  shows "str_decimal_literal (ip @ CHR ''e'' # (if m < 0 then ''-'' else ''+'') @ digits_of \<bar>m\<bar>) =
     round64 (of_int (int_of_digits ip) * pow10 m)"
  by (subst str_decimal_literal_digits[OF assms]) (simp_all add: exponent_part_layout)

lemma parse_layout_point_exp:
  assumes "ip \<noteq> []" "list_all is_digit ip" "list_all is_digit fp"
  shows "str_decimal_literal
           (ip @ CHR ''.'' # fp @ CHR ''e'' # (if m < 0 then ''-'' else ''+'') @ digits_of \<bar>m\<bar>) =
     round64 (of_int (int_of_digits (ip @ fp)) * pow10 (m - int (length fp)))"
proof -
  have tw: "takeWhile is_digit (fp @ CHR ''e'' # (if m < 0 then ''-'' else ''+'') @ digits_of \<bar>m\<bar>) = fp"
      "dropWhile is_digit (fp @ CHR ''e'' # (if m < 0 then ''-'' else ''+'') @ digits_of \<bar>m\<bar>) =
        CHR ''e'' # (if m < 0 then ''-'' else ''+'') @ digits_of \<bar>m\<bar>"
    using takeWhile_digits[OF assms(3), of "CHR ''e'' # (if m < 0 then ''-'' else ''+'') @ digits_of \<bar>m\<bar>"]
    by simp_all
  show ?thesis
    by (subst str_decimal_literal_digits[OF assms(1,2)])
       (simp_all add: tw exponent_part_layout del: append.simps)
qed

lemma parse_layout:
  assumes "ds \<noteq> []" "list_all is_digit ds"
  shows "str_decimal_literal (layout ds n) =
     round64 (of_int (int_of_digits ds) * pow10 (n - int (length ds)))"
proof -
  define k where "k = int (length ds)"
  have kpos: "0 < k" using assms(1) by (simp add: k_def)
  consider (int) "k \<le> n" "n \<le> 21"
    | (point) "\<not> (k \<le> n \<and> n \<le> 21)" "0 < n" "n \<le> 21"
    | (small) "\<not> (k \<le> n \<and> n \<le> 21)" "\<not> (0 < n \<and> n \<le> 21)" "- 6 < n" "n \<le> 0"
    | (exp1) "\<not> (k \<le> n \<and> n \<le> 21)" "\<not> (0 < n \<and> n \<le> 21)" "\<not> (- 6 < n \<and> n \<le> 0)" "k = 1"
    | (expk) "\<not> (k \<le> n \<and> n \<le> 21)" "\<not> (0 < n \<and> n \<le> 21)" "\<not> (- 6 < n \<and> n \<le> 0)" "k \<noteq> 1"
    by blast
  then show ?thesis
  proof cases
    case int
    then have c: "(int (length ds) \<le> n \<and> n \<le> 21) = True"
      by (simp add: k_def)
    have l: "layout ds n = ds @ replicate (nat (n - k)) (CHR ''0'')"
      unfolding layout_def Let_def by (simp only: c if_True k_def)
    have "int (nat (n - k)) = n - k" using int by simp
    then show ?thesis
      unfolding l parse_layout_integer[OF assms] by (simp add: k_def)
  next
    case point
    then have nk: "n < k" by auto
    have c: "(int (length ds) \<le> n \<and> n \<le> 21) = False" "(0 < n \<and> n \<le> 21) = True"
      using point by (simp_all add: k_def)
    have l: "layout ds n = take (nat n) ds @ CHR ''.'' # drop (nat n) ds"
      unfolding layout_def Let_def by (simp only: c if_False if_True) simp
    have ne: "take (nat n) ds \<noteq> []" using point(2) assms(1) by simp
    have len: "- int (length (drop (nat n) ds)) = n - k" using nk point(2) by (simp add: k_def)
    show ?thesis
      unfolding l parse_layout_point[OF ne list_all_take_drop[OF assms(2)]] len
      by (simp add: k_def)
  next
    case small
    have c: "(int (length ds) \<le> n \<and> n \<le> 21) = False" "(0 < n \<and> n \<le> 21) = False"
      "(- 6 < n \<and> n \<le> 0) = True"
      using small by (simp_all add: k_def)
    have l: "layout ds n = ''0'' @ CHR ''.'' # (replicate (nat (- n)) (CHR ''0'') @ ds)"
      unfolding layout_def Let_def by (simp only: c if_False if_True) simp
    have fp: "list_all is_digit (replicate (nat (- n)) (CHR ''0'') @ ds)" using assms(2) by simp
    have z: "''0'' \<noteq> []" "list_all is_digit ''0''" by simp_all
    have v: "int_of_digits (''0'' @ replicate (nat (- n)) (CHR ''0'') @ ds) = int_of_digits ds"
      using int_of_digits_leading_zeros[of "Suc (nat (- n))" ds] by simp
    have len: "- int (length (replicate (nat (- n)) (CHR ''0'') @ ds)) = n - k"
      using small by (simp add: k_def)
    show ?thesis
      unfolding l parse_layout_point[OF z fp] v len by (simp add: k_def)
  next
    case exp1
    have c: "(int (length ds) \<le> n \<and> n \<le> 21) = False" "(0 < n \<and> n \<le> 21) = False"
      "(- 6 < n \<and> n \<le> 0) = False" "(int (length ds) = 1) = True"
      using exp1 by (simp_all add: k_def)
    have l: "layout ds n =
        ds @ CHR ''e'' # (if n - 1 < 0 then ''-'' else ''+'') @ digits_of \<bar>n - 1\<bar>"
      unfolding layout_def Let_def by (simp only: c if_False if_True) simp
    show ?thesis
      unfolding l parse_layout_exp[OF assms] using exp1(4) by (simp add: k_def)
  next
    case expk
    have c: "(int (length ds) \<le> n \<and> n \<le> 21) = False" "(0 < n \<and> n \<le> 21) = False"
      "(- 6 < n \<and> n \<le> 0) = False" "(int (length ds) = 1) = False"
      using expk by (simp_all add: k_def)
    have l: "layout ds n =
        take 1 ds @ CHR ''.'' # drop 1 ds
          @ CHR ''e'' # (if n - 1 < 0 then ''-'' else ''+'') @ digits_of \<bar>n - 1\<bar>"
      unfolding layout_def Let_def by (simp only: c if_False if_True) simp
    have ne: "take 1 ds \<noteq> []" using assms(1) by simp
    have "0 < length ds" using assms(1) by simp
    then have "int (length ds - 1) = int (length ds) - 1" by linarith
    then have len: "n - 1 - int (length (drop 1 ds)) = n - k" by (simp add: k_def)
    show ?thesis
      unfolding l parse_layout_point_exp[OF ne list_all_take_drop[OF assms(2)]] len
      by (simp add: k_def)
  qed
qed

lemma layout_head:
  assumes "ds \<noteq> []" "list_all is_digit ds"
  shows "\<exists>c cs. layout ds n = c # cs \<and> is_digit c"
proof -
  obtain d ds' where ds: "ds = d # ds'" using assms(1) by (cases ds) auto
  have d: "is_digit d" using assms(2) by (simp add: ds)
  have t: "0 < n \<Longrightarrow> take (nat n) (d # ds') = d # take (nat n - 1) ds'"
    by (cases "nat n") simp_all
  show ?thesis
    unfolding layout_def Let_def ds using d t by auto
qed

lemma parseFloat_digit_led:
  assumes "is_digit c"
  shows "parseFloat (c # cs) = str_decimal_literal (c # cs)"
    "parseFloat (CHR ''-'' # c # cs) = dneg (str_decimal_literal (c # cs))"
  using digit_not_ws[OF assms] digit_not_special[OF assms]
  by (simp_all add: parseFloat_def drop_sign_def is_neg_def is_ws_def Let_def)

lemma digits_of_value_pos: "0 < c \<Longrightarrow> 0 < int_of_digits (digits_of c)"
  by (simp add: int_of_digits_digits_of)

lemma render_parts:
  assumes "0 < c"
  shows "strip_zeros (digits_of c) \<noteq> []" "list_all is_digit (strip_zeros (digits_of c))"
    "of_int (int_of_digits (strip_zeros (digits_of c)))
       * pow10 (e + int (length (digits_of c)) - int (length (strip_zeros (digits_of c))))
     = of_int c * pow10 e"
proof -
  define ds0 where "ds0 = digits_of c"
  define ds where "ds = strip_zeros ds0"
  define z where "z = length ds0 - length ds"
  have v0: "int_of_digits ds0 = c" using assms by (simp add: ds0_def int_of_digits_digits_of)
  show "strip_zeros (digits_of c) \<noteq> []"
    using strip_zeros_nonempty[of ds0] v0 assms by (simp add: ds0_def)
  show "list_all is_digit (strip_zeros (digits_of c))"
    using strip_zeros_digits[of ds0] digits_of_all_digits[of c] assms by (simp add: ds0_def)
  have c: "c = int_of_digits ds * 10 ^ z"
    using strip_zeros_value[of ds0] v0 by (simp add: ds_def z_def)
  have "int (length ds0) - int (length ds) = int z"
    using strip_zeros_length[of ds0] by (simp add: z_def ds_def)
  then have "e + int (length ds0) - int (length ds) = int z + e" by simp
  then have "pow10 (e + int (length ds0) - int (length ds)) = 10 ^ z * pow10 e"
    by (simp only: pow10_add pow10_nat)
  then have "of_int (int_of_digits ds) * pow10 (e + int (length ds0) - int (length ds))
      = of_int (int_of_digits ds * 10 ^ z) * pow10 e" by simp
  also have "of_int (int_of_digits ds * 10 ^ z) = (of_int c :: rat)" by (simp only: c[symmetric])
  finally show "of_int (int_of_digits (strip_zeros (digits_of c)))
       * pow10 (e + int (length (digits_of c)) - int (length (strip_zeros (digits_of c))))
     = of_int c * pow10 e"
    by (simp only: ds_def ds0_def)
qed

lemma parse_render:
  assumes "0 < c"
  shows "str_decimal_literal (render c e) = round64 (of_int c * pow10 e)"
  unfolding render_def parse_layout[OF render_parts(1,2)[OF assms]] render_parts(3)[OF assms] ..

lemma render_head:
  assumes "0 < c"
  shows "\<exists>d ds. render c e = d # ds \<and> is_digit d"
  unfolding render_def by (rule layout_head[OF render_parts(1,2)[OF assms]])

lemma parseFloat_pos_toString:
  assumes "round64 r = Fin r" "0 < r"
  shows "parseFloat (pos_toString r) = Fin r"
    "parseFloat (CHR ''-'' # pos_toString r) = Fin (- r)"
proof -
  obtain c e where ce: "shortest r = (c, e)" by (cases "shortest r")
  have rt: "0 < c" "round64 (of_int c * pow10 e) = Fin r"
    using shortest_rounds[OF assms] by (simp_all add: ce rounds_to_def)
  obtain d ds where h: "render c e = d # ds" "is_digit d" using render_head[OF rt(1)] by blast
  have p: "pos_toString r = d # ds" by (simp add: pos_toString_def ce h(1))
  have "str_decimal_literal (d # ds) = Fin r"
    using parse_render[OF rt(1), of e] rt(2) by (simp add: h(1))
  then show "parseFloat (pos_toString r) = Fin r"
      "parseFloat (CHR ''-'' # pos_toString r) = Fin (- r)"
    by (simp_all add: p parseFloat_digit_led[OF h(2)])
qed

lemma parseFloat_num_toString:
  assumes "is_double x"
  shows "parseFloat (num_toString x) = x"
proof (cases x)
  case NaN
  have "parseFloat ''NaN'' = NaN" by code_simp
  then show ?thesis using NaN by simp
next
  case PosInf
  have "parseFloat ''Infinity'' = PosInf" by code_simp
  then show ?thesis using PosInf by simp
next
  case NegInf
  have "parseFloat ''-Infinity'' = NegInf" by code_simp
  then show ?thesis using NegInf by simp
next
  case (Fin r)
  then have d: "round64 r = Fin r" using assms by (simp add: is_double_def)
  consider "r = 0" | "0 < r" | "r < 0" by linarith
  then show ?thesis
  proof cases
    case 1
    have "parseFloat ''0'' = Fin 0" by code_simp
    then show ?thesis using 1 Fin by simp
  next
    case 2
    then show ?thesis using parseFloat_pos_toString(1)[OF d 2] Fin by simp
  next
    case 3
    then have pos: "0 < - r" by simp
    have "round64 (- r) = Fin (- r)" using d by (simp add: round64_neg)
    from parseFloat_pos_toString(2)[OF this pos] show ?thesis using 3 Fin by simp
  qed
qed

lemma digits_of_length_le:
  "0 \<le> N \<Longrightarrow> N < 10 ^ m \<Longrightarrow> 0 < m \<Longrightarrow> length (digits_of N) \<le> m"
proof (induction N arbitrary: m rule: digits_of.induct)
  case (1 n)
  show ?case
  proof (cases "n < 10")
    case True
    then show ?thesis using 1(4) by (subst digits_of.simps) simp
  next
    case False
    obtain m' where m: "m = Suc m'" using 1(4) by (cases m) auto
    have m'pos: "0 < m'"
    proof (rule ccontr)
      assume "\<not> 0 < m'"
      then have "m' = 0" by simp
      with 1(3) have "n < 10" by (simp add: m)
      with False show False by simp
    qed
    have "n div 10 < 10 ^ m'" using 1(3) by (simp add: m div_less_iff_less_mult)
    then have "length (digits_of (n div 10)) \<le> m'"
      using 1(1)[OF False _ _ m'pos] 1(2) by simp
    then show ?thesis using False by (subst digits_of.simps) (simp add: m)
  qed
qed

lemma digit_char_0: "digit_char 0 = CHR ''0''"
  by code_simp

lemma digits_of_times10: "0 < c \<Longrightarrow> digits_of (c * 10) = digits_of c @ ''0''"
  by (subst digits_of.simps) (simp add: digit_char_0)

lemma digits_of_times_pow10: "0 < c \<Longrightarrow> digits_of (c * 10 ^ m) = digits_of c @ replicate m (CHR ''0'')"
proof (induction m)
  case 0
  then show ?case by simp
next
  case (Suc m)
  have "0 < c * 10 ^ m" using Suc(2) by simp
  have "c * 10 ^ Suc m = (c * 10 ^ m) * 10" by simp
  then have "digits_of (c * 10 ^ Suc m) = digits_of (c * 10 ^ m) @ ''0''"
    using digits_of_times10[OF \<open>0 < c * 10 ^ m\<close>] by (simp only:)
  then show ?case using Suc by (simp add: replicate_append_same)
qed

lemma dec_exp_int: "0 < N \<Longrightarrow> dec_exp (of_int N) = int (length (digits_of N))"
  by (simp add: dec_exp_def)

lemma shortest_from_first:
  assumes "sorted ks" "k0 \<in> set ks" "candidate r k0 \<noteq> None"
  shows "\<exists>k. k \<le> k0 \<and> candidate r k = Some (shortest_from r ks)"
  using assms
proof (induction ks)
  case Nil
  then show ?case by simp
next
  case (Cons k ks)
  show ?case
  proof (cases "candidate r k")
    case None
    then have "k0 \<in> set ks" using Cons(3,4) by auto
    then show ?thesis using Cons(1)[OF _ _ Cons(4)] Cons(2) None by simp
  next
    case (Some ce)
    have "k \<le> k0" using Cons(2,3) by auto
    then show ?thesis using Some by auto
  qed
qed

lemma round64_int_injective:
  assumes "0 < N" "N < 2 ^ 53" "0 < M" "round64 (of_int M) = Fin (of_int N)"
  shows "M = N"
proof (cases "M < 2 ^ 53")
  case True
  from round64_small_int[OF assms(3) True] assms(4) show ?thesis by simp
next
  case False
  then have "(of_int (2 ^ 53) :: rat) \<le> of_int M" by (simp only: of_int_le_iff)
  then have "(2 ^ 53 :: rat) \<le> of_int M" by simp
  from round64_large[OF this] assms(4) have "(2 ^ 53 :: rat) \<le> of_int N" by auto
  then have "(of_int (2 ^ 53) :: rat) \<le> of_int N" by simp
  then have "2 ^ 53 \<le> N" by (simp only: of_int_le_iff)
  then show ?thesis using assms(2) by simp
qed

lemma pos_toString_int:
  assumes "0 < N" "N < 2 ^ 53"
  shows "pos_toString (of_int N) = digits_of N"
proof -
  define r :: rat where "r = of_int N"
  define n0 where "n0 = int (length (digits_of N))"
  have rd: "round64 r = Fin r" unfolding r_def by (rule round64_small_int[OF assms])
  have rpos: "0 < r" using assms(1) by (simp add: r_def)
  have de: "dec_exp r = n0" unfolding r_def n0_def by (rule dec_exp_int[OF assms(1)])
  have "N < 10 ^ 16" using assms(2) by simp
  then have "length (digits_of N) \<le> 16" using digits_of_length_le[of N 16] assms(1) by simp
  then have n0_hi: "n0 \<le> 17" by (simp add: n0_def)
  have n0_lo: "1 \<le> n0" using digits_of_nonempty[of N] by (cases "digits_of N") (simp_all add: n0_def)
  have e0: "dec_exp r - n0 = 0" using de by simp
  have p0: "pow10 0 = 1" by (simp add: pow10_def)
  have lo: "\<lfloor>r / pow10 0\<rfloor> = N" by (simp add: p0 r_def)
  have "rounds_to r N 0" using rd assms(1) by (simp add: rounds_to_def p0 r_def)
  then have a: "rounds_to r \<lfloor>r / pow10 (dec_exp r - n0)\<rfloor> (dec_exp r - n0)"
    by (simp only: e0 lo)
  have cand: "candidate r n0 \<noteq> None"
    using a by (simp add: candidate_def Let_def)
  have "n0 \<in> set [1..17]" using n0_lo n0_hi by simp
  from shortest_from_first[OF sorted_upto this cand]
  obtain k where k: "k \<le> n0" "candidate r k = Some (shortest r)" by (auto simp add: shortest_def)
  obtain c e where ce: "shortest r = (c, e)" by (cases "shortest r")
  from candidate_Some[of r k c e] k(2) ce
  have rt: "rounds_to r c e" and e: "e = n0 - k" by (simp_all add: de)
  have epos: "0 \<le> e" using k(1) e by simp
  have cpos: "0 < c" using rt by (simp add: rounds_to_def)
  define M where "M = c * 10 ^ nat e"
  have Mpos: "0 < M" using cpos by (simp add: M_def)
  have "of_int c * pow10 e = (of_int M :: rat)" using epos by (simp add: M_def pow10_def)
  then have "round64 (of_int M) = Fin (of_int N)" using rt by (simp add: rounds_to_def r_def)
  from round64_int_injective[OF assms Mpos this] have MN: "M = N" .
  define ds0 where "ds0 = digits_of c"
  define z where "z = length ds0 - length (strip_zeros ds0)"
  have dN: "digits_of N = ds0 @ replicate (nat e) (CHR ''0'')"
    using digits_of_times_pow10[OF cpos, of "nat e"] by (simp add: MN[symmetric] M_def ds0_def)
  have len: "int (length ds0) + e = n0" using epos by (simp add: n0_def dN)
  have c1: "(int (length (strip_zeros ds0)) \<le> e + int (length ds0) \<and> e + int (length ds0) \<le> 21) = True"
    using strip_zeros_length[of ds0] epos len n0_hi by simp
  have "nat (e + int (length ds0) - int (length (strip_zeros ds0))) = z + nat e"
    using strip_zeros_length[of ds0] epos by (simp add: z_def)
  then have "layout (strip_zeros ds0) (e + int (length ds0)) =
      strip_zeros ds0 @ replicate z (CHR ''0'') @ replicate (nat e) (CHR ''0'')"
    unfolding layout_def Let_def by (simp only: c1 if_True replicate_add)
  also have "\<dots> = ds0 @ replicate (nat e) (CHR ''0'')"
    using strip_zeros_decomp[of ds0] by (simp add: z_def)
  finally have "render c e = digits_of N" by (simp add: render_def ds0_def dN)
  then show ?thesis by (simp add: pos_toString_def r_def[symmetric] ce)
qed

section \<open>Invoice numbers: auxiliary facts\<close>

lemma parseInt_digits:
  assumes "ds \<noteq> []" "list_all is_digit ds"
  shows "parseInt ds = round64 (of_int (int_of_digits ds))"
proof -
  obtain c cs where ds: "ds = c # cs" using assms(1) by (cases ds) auto
  have c: "is_digit c" using assms(2) by (simp add: ds)
  have hex: "take 2 ds \<noteq> ''0x''" "take 2 ds \<noteq> ''0X''"
    using assms(2) by (cases cs; auto simp add: ds is_digit_def)+
  have tw: "takeWhile is_digit ds = ds" using takeWhile_digits(1)[OF assms(2), of "[]"] by simp
  have ws: "dropWhile is_ws ds = ds" using digit_not_ws[OF c] by (simp add: ds)
  have sg: "drop_sign ds = ds" "is_neg ds = False"
    using digit_not_special[OF c] by (simp_all add: ds drop_sign_def is_neg_def)
  show ?thesis
    unfolding parseInt_def Let_def ws sg using hex assms(1) by (simp add: tw)
qed

lemma replace_prefix: "p \<noteq> [] \<Longrightarrow> replace (p @ s) p [] = s"
  by (cases p) simp_all

lemma or_default_nonempty: "d \<noteq> [] \<Longrightarrow> or_default x d \<noteq> []"
  by (simp add: or_default_def split: option.splits)

lemma newest_max:
  "newest best xs \<in> set (best # xs)
   \<and> (\<forall>i \<in> set (best # xs). Invoice.createdAt i \<le> Invoice.createdAt (newest best xs))"
proof (induction xs arbitrary: best)
  case Nil
  then show ?case by simp
next
  case (Cons x xs)
  show ?case using Cons[of "if Invoice.createdAt best < Invoice.createdAt x then x else best"]
    by (auto split: if_splits)
qed

lemma lastInvoice_newest:
  assumes "lastInvoice db = [latest]"
  shows "latest \<in> set (invoices db)"
    "\<forall>i \<in> set (invoices db). Invoice.createdAt i \<le> Invoice.createdAt latest"
proof -
  obtain x xs where inv: "invoices db = x # xs" "latest = newest x xs"
    using assms by (cases "invoices db") (simp_all add: lastInvoice_def)
  show "latest \<in> set (invoices db)" using newest_max[of x xs] by (simp add: inv)
  show "\<forall>i \<in> set (invoices db). Invoice.createdAt i \<le> Invoice.createdAt latest"
    using newest_max[of x xs] by (simp add: inv)
qed

lemma num_toString_int:
  assumes "0 < N" "N < 2 ^ 53"
  shows "num_toString (Fin (of_int N)) = digits_of N"
  using assms pos_toString_int[OF assms] by simp

lemma next_number_safe:
  assumes "lastInvoice db = [latest]"
    and "Invoice.invoiceNumber latest = or_default (getSetting db ''invoice_prefix'') ''INV-'' @ ds"
    and "ds \<noteq> []" "list_all is_digit ds" "int_of_digits ds + 1 < 2 ^ 53"
  shows "getNextInvoiceNumber db =
     or_default (getSetting db ''invoice_prefix'') ''INV-''
       @ padStart (digits_of (int_of_digits ds + 1)) 4 ''0''"
proof -
  define prefix where "prefix = or_default (getSetting db ''invoice_prefix'') ''INV-''"
  define n where "n = int_of_digits ds"
  have pne: "prefix \<noteq> []" unfolding prefix_def by (rule or_default_nonempty) simp
  have n0: "0 \<le> n" unfolding n_def by (rule int_of_digits_nonneg[OF assms(4)])
  have rep: "replace (Invoice.invoiceNumber latest) prefix [] = ds"
    using replace_prefix[OF pne, of ds] assms(2) by (simp add: prefix_def)
  have pi: "parseInt ds = Fin (of_int n)"
  proof (cases "n = 0")
    case True
    then show ?thesis using parseInt_digits[OF assms(3,4)] by (simp add: n_def round64_def)
  next
    case False
    then have "0 < n" "n < 2 ^ 53" using n0 assms(5) by (simp_all add: n_def)
    from round64_small_int[OF this] show ?thesis
      using parseInt_digits[OF assms(3,4)] by (simp add: n_def)
  qed
  have n1: "0 < n + 1" "n + 1 < 2 ^ 53" using n0 assms(5) by (simp_all add: n_def)
  have "dadd (Fin (of_int n)) (Fin 1) = round64 (of_int (n + 1))" by simp
  then have inc: "dadd (parseInt ds) (Fin 1) = Fin (of_int (n + 1))"
    using round64_small_int[OF n1] by (simp only: pi)
  have str: "num_toString (dadd (parseInt ds) (Fin 1)) = digits_of (n + 1)"
    unfolding inc by (rule num_toString_int[OF n1])
  show ?thesis
    unfolding getNextInvoiceNumber_def Let_def prefix_def[symmetric] assms(1)
    by (simp add: rep str n_def)
qed

lemma digits_of_length_gt:
  "10 ^ k \<le> N \<Longrightarrow> k < length (digits_of N)"
proof (induction N arbitrary: k rule: digits_of.induct)
  case (1 n)
  show ?case
  proof (cases "n < 10")
    case True
    have "k = 0"
    proof (cases k)
      case 0
      then show ?thesis .
    next
      case (Suc k')
      have "(1::int) \<le> 10 ^ k'" by simp
      then have "(10::int) \<le> 10 ^ k" by (simp add: Suc)
      with 1(2) True show ?thesis by simp
    qed
    then show ?thesis by (subst digits_of.simps) simp
  next
    case False
    show ?thesis
    proof (cases k)
      case 0
      then show ?thesis by (subst digits_of.simps) simp
    next
      case (Suc k')
      then have "10 ^ k' \<le> n div 10" using 1(2) by simp
      from 1(1)[OF False this] show ?thesis using False Suc by (subst digits_of.simps) simp
    qed
  qed
qed

lemma one_invoice_db_last:
  "lastInvoice (one_invoice_db number) = [hd (invoices (one_invoice_db number))]"
  "Invoice.invoiceNumber (hd (invoices (one_invoice_db number))) = number"
  "or_default (getSetting (one_invoice_db number) ''invoice_prefix'') ''INV-'' = ''INV-''"
  by (simp_all add: one_invoice_db_def lastInvoice_def getSetting_def or_default_def)

lemma one_invoice_db_next:
  "getNextInvoiceNumber (one_invoice_db number) =
     ''INV-'' @ padStart (num_toString (dadd (parseInt (replace number ''INV-'' [])) (Fin 1))) 4 ''0''"
  by (simp add: getNextInvoiceNumber_def one_invoice_db_last Let_def)

section \<open>Totals: auxiliary facts\<close>

lemma update_items_eq_create: "update_calculatedItems its = create_calculatedItems its"
  by (simp add: create_calculatedItems_def update_calculatedItems_def)

lemma update_totals_eq_create:
  "update_subtotal xs = create_subtotal xs"
  "update_totalDiscount xs = create_totalDiscount xs"
  "update_totalTax xs = create_totalTax xs"
  "update_total xs = create_total xs"
  by (simp_all add: update_subtotal_def create_subtotal_def update_totalDiscount_def
      create_totalDiscount_def update_totalTax_def create_totalTax_def update_total_def
      create_total_def)

lemma preview_subtotal_truncate:
  "preview_subtotal xs = create_subtotal (map CalculatedItem.truncate xs)"
  by (simp add: preview_subtotal_def create_subtotal_def foldl_map CalculatedItem.truncate_def)

lemma preview_totalDiscount_truncate:
  "preview_totalDiscount xs = create_totalDiscount (map CalculatedItem.truncate xs)"
  by (simp add: preview_totalDiscount_def create_totalDiscount_def foldl_map
      CalculatedItem.truncate_def)

lemma preview_totalTax_truncate:
  "preview_totalTax xs = create_totalTax (map CalculatedItem.truncate xs)"
  by (simp add: preview_totalTax_def create_totalTax_def foldl_map CalculatedItem.truncate_def)

lemma preview_total_truncate:
  "preview_total xs = create_total (map CalculatedItem.truncate xs)"
  by (simp add: preview_total_def create_total_def preview_subtotal_truncate
      preview_totalDiscount_truncate preview_totalTax_truncate)

lemma preview_map_numbers:
  "\<exists>xs. preview_map random i
          (map (\<lambda>item. \<lparr> ItemValues.description = FormItem.description item,
                          ItemValues.quantity = Num (FormItem.quantity item),
                          ItemValues.rate = Num (FormItem.rate item),
                          ItemValues.taxRate = Num (FormItem.taxRate item),
                          ItemValues.discountRate = Num (FormItem.discountRate item) \<rparr>) its)
        = Inr xs
      \<and> map CalculatedItem.truncate xs = create_calculatedItems its"
proof (induction its arbitrary: i)
  case Nil
  show ?case by (simp add: create_calculatedItems_def)
next
  case (Cons item its)
  from Cons[of "Suc i"] obtain xs where xs:
    "preview_map random (Suc i)
          (map (\<lambda>item. \<lparr> ItemValues.description = FormItem.description item,
                          ItemValues.quantity = Num (FormItem.quantity item),
                          ItemValues.rate = Num (FormItem.rate item),
                          ItemValues.taxRate = Num (FormItem.taxRate item),
                          ItemValues.discountRate = Num (FormItem.discountRate item) \<rparr>) its)
        = Inr xs"
    "map CalculatedItem.truncate xs = create_calculatedItems its"
    by blast
  have split: "create_calculatedItems (item # its) =
      create_calculatedItems [item] @ create_calculatedItems its"
    by (simp add: create_calculatedItems_def)
  have "\<exists>x. preview_item (random i)
          \<lparr> ItemValues.description = FormItem.description item,
            ItemValues.quantity = Num (FormItem.quantity item),
            ItemValues.rate = Num (FormItem.rate item),
            ItemValues.taxRate = Num (FormItem.taxRate item),
            ItemValues.discountRate = Num (FormItem.discountRate item) \<rparr> = Inr x
        \<and> [CalculatedItem.truncate x] = create_calculatedItems [item]"
    by (simp add: preview_item_def toString_method_def Let_def create_calculatedItems_def
        CalculatedItem.truncate_def)
  then obtain x where x:
    "preview_item (random i)
          \<lparr> ItemValues.description = FormItem.description item,
            ItemValues.quantity = Num (FormItem.quantity item),
            ItemValues.rate = Num (FormItem.rate item),
            ItemValues.taxRate = Num (FormItem.taxRate item),
            ItemValues.discountRate = Num (FormItem.discountRate item) \<rparr> = Inr x"
    "[CalculatedItem.truncate x] = create_calculatedItems [item]"
    by blast
  have "map CalculatedItem.truncate (x # xs) = create_calculatedItems (item # its)"
    using x(2)[symmetric] xs(2) by (simp add: split)
  then show ?case
    using x(1) xs(1) by simp
qed

text \<open>
  When every field of every item of the form holds a number, the preview computes the
  items and the totals that the create path computes from these numbers.
\<close>

lemma preview_of_numbers:
  "\<exists>xs. preview_calculatedItems random
          (map (\<lambda>item. \<lparr> ItemValues.description = FormItem.description item,
                          ItemValues.quantity = Num (FormItem.quantity item),
                          ItemValues.rate = Num (FormItem.rate item),
                          ItemValues.taxRate = Num (FormItem.taxRate item),
                          ItemValues.discountRate = Num (FormItem.discountRate item) \<rparr>) its)
        = Inr xs
      \<and> map CalculatedItem.truncate xs = create_calculatedItems its
      \<and> preview_subtotal xs = create_subtotal (create_calculatedItems its)
      \<and> preview_totalDiscount xs = create_totalDiscount (create_calculatedItems its)
      \<and> preview_totalTax xs = create_totalTax (create_calculatedItems its)
      \<and> preview_total xs = create_total (create_calculatedItems its)"
  using preview_map_numbers[of random 0 its]
  by (auto simp add: preview_calculatedItems_def preview_subtotal_truncate
      preview_totalDiscount_truncate preview_totalTax_truncate preview_total_truncate)

lemma fields_round_trip:
  assumes "is_form_item item"
  shows "parseFloat (num_toString (FormItem.quantity item)) = FormItem.quantity item"
    "parseFloat (num_toString (FormItem.rate item)) = FormItem.rate item"
    "parseFloat (num_toString (FormItem.taxRate item)) = FormItem.taxRate item"
    "parseFloat (num_toString (FormItem.discountRate item)) = FormItem.discountRate item"
  using assms by (simp_all add: is_form_item_def parseFloat_num_toString)

lemma foldl_dadd_cong:
  assumes "list_all P xs" "\<And>x. P x \<Longrightarrow> f x = h x"
  shows "foldl (\<lambda>s x. dadd s (f x)) a xs = foldl dadd a (map h xs)"
  using assms(1) by (induction xs arbitrary: a) (simp_all add: assms(2))

lemma create_subtotal_sum:
  assumes "list_all is_form_item its"
  shows "create_subtotal (create_calculatedItems its) =
      dsum (map (\<lambda>item. spec_lineSubtotal (FormItem.quantity item) (FormItem.rate item)) its)"
proof -
  have "create_subtotal (create_calculatedItems its) =
      foldl (\<lambda>s item. dadd s (dmul (parseFloat (num_toString (FormItem.quantity item)))
                                  (parseFloat (num_toString (FormItem.rate item))))) (Fin 0) its"
    by (simp add: create_subtotal_def create_calculatedItems_def foldl_map Let_def)
  also have "\<dots> = foldl dadd (Fin 0)
      (map (\<lambda>item. spec_lineSubtotal (FormItem.quantity item) (FormItem.rate item)) its)"
    by (rule foldl_dadd_cong[OF assms]) (simp add: fields_round_trip spec_lineSubtotal_def)
  finally show ?thesis by (simp add: dsum_def)
qed

lemma create_totalDiscount_sum:
  assumes "list_all is_form_item its"
  shows "create_totalDiscount (create_calculatedItems its) =
      dsum (map (\<lambda>item. spec_discount (FormItem.quantity item) (FormItem.rate item)
                          (FormItem.discountRate item)) its)"
proof -
  have "create_totalDiscount (create_calculatedItems its) =
      foldl (\<lambda>s item. dadd s
          (ddiv (dmul (dmul (parseFloat (num_toString (FormItem.quantity item)))
                            (parseFloat (num_toString (FormItem.rate item))))
                      (parseFloat (num_toString (FormItem.discountRate item)))) (Fin 100)))
        (Fin 0) its"
    by (simp add: create_totalDiscount_def create_calculatedItems_def foldl_map Let_def)
  also have "\<dots> = foldl dadd (Fin 0)
      (map (\<lambda>item. spec_discount (FormItem.quantity item) (FormItem.rate item)
                     (FormItem.discountRate item)) its)"
    by (rule foldl_dadd_cong[OF assms])
       (simp add: fields_round_trip spec_lineSubtotal_def spec_discount_def)
  finally show ?thesis by (simp add: dsum_def)
qed

lemma create_totalTax_sum:
  assumes "list_all is_form_item its"
  shows "create_totalTax (create_calculatedItems its) =
      dsum (map (\<lambda>item. spec_tax (FormItem.quantity item) (FormItem.rate item)
                          (FormItem.discountRate item) (FormItem.taxRate item)) its)"
proof -
  have "create_totalTax (create_calculatedItems its) =
      foldl (\<lambda>s item. dadd s
          (ddiv (dmul
             (dsub (dmul (parseFloat (num_toString (FormItem.quantity item)))
                         (parseFloat (num_toString (FormItem.rate item))))
                   (ddiv (dmul (dmul (parseFloat (num_toString (FormItem.quantity item)))
                                     (parseFloat (num_toString (FormItem.rate item))))
                               (parseFloat (num_toString (FormItem.discountRate item))))
                         (Fin 100)))
             (parseFloat (num_toString (FormItem.taxRate item)))) (Fin 100)))
        (Fin 0) its"
    by (simp add: create_totalTax_def create_calculatedItems_def foldl_map Let_def)
  also have "\<dots> = foldl dadd (Fin 0)
      (map (\<lambda>item. spec_tax (FormItem.quantity item) (FormItem.rate item)
                     (FormItem.discountRate item) (FormItem.taxRate item)) its)"
    by (rule foldl_dadd_cong[OF assms])
       (simp add: fields_round_trip spec_lineSubtotal_def spec_discount_def
          spec_afterDiscount_def spec_tax_def)
  finally show ?thesis by (simp add: dsum_def)
qed

lemma example1_items:
  "create_calculatedItems
     [\<lparr>FormItem.description = label, quantity = Fin 2, rate = Fin 100, taxRate = Fin 18,
        discountRate = Fin 0\<rparr>] =
   [\<lparr>CalculatedItem.description = label, quantity = ''2'', rate = ''100'', taxRate = ''18'',
      discountRate = ''0'', amount = ''236''\<rparr>]"
  by code_simp

lemma example1_totals:
  "create_subtotal [\<lparr>CalculatedItem.description = label, quantity = ''2'', rate = ''100'',
      taxRate = ''18'', discountRate = ''0'', amount = ''236''\<rparr>] = Fin 200"
  "create_totalDiscount [\<lparr>CalculatedItem.description = label, quantity = ''2'', rate = ''100'',
      taxRate = ''18'', discountRate = ''0'', amount = ''236''\<rparr>] = Fin 0"
  "create_totalTax [\<lparr>CalculatedItem.description = label, quantity = ''2'', rate = ''100'',
      taxRate = ''18'', discountRate = ''0'', amount = ''236''\<rparr>] = Fin 36"
  "create_total [\<lparr>CalculatedItem.description = label, quantity = ''2'', rate = ''100'',
      taxRate = ''18'', discountRate = ''0'', amount = ''236''\<rparr>] = Fin 236"
  by code_simp+

lemma example1_steps:
  "spec_lineSubtotal (Fin 2) (Fin 100) = Fin 200"
  "spec_discount (Fin 2) (Fin 100) (Fin 0) = Fin 0"
  "spec_tax (Fin 2) (Fin 100) (Fin 0) (Fin 18) = Fin 36"
  "spec_amount (Fin 2) (Fin 100) (Fin 0) (Fin 18) = Fin 236"
  by code_simp+

lemma example2_items:
  "create_calculatedItems
     [\<lparr>FormItem.description = label, quantity = Fin 1, rate = Fin 1000, taxRate = Fin 0,
        discountRate = Fin 10\<rparr>] =
   [\<lparr>CalculatedItem.description = label, quantity = ''1'', rate = ''1000'', taxRate = ''0'',
      discountRate = ''10'', amount = ''900''\<rparr>]"
  by code_simp

lemma example2_totals:
  "create_subtotal [\<lparr>CalculatedItem.description = label, quantity = ''1'', rate = ''1000'',
      taxRate = ''0'', discountRate = ''10'', amount = ''900''\<rparr>] = Fin 1000"
  "create_totalDiscount [\<lparr>CalculatedItem.description = label, quantity = ''1'', rate = ''1000'',
      taxRate = ''0'', discountRate = ''10'', amount = ''900''\<rparr>] = Fin 100"
  "create_totalTax [\<lparr>CalculatedItem.description = label, quantity = ''1'', rate = ''1000'',
      taxRate = ''0'', discountRate = ''10'', amount = ''900''\<rparr>] = Fin 0"
  "create_total [\<lparr>CalculatedItem.description = label, quantity = ''1'', rate = ''1000'',
      taxRate = ''0'', discountRate = ''10'', amount = ''900''\<rparr>] = Fin 900"
  by code_simp+

lemma example2_steps:
  "spec_discount (Fin 1) (Fin 1000) (Fin 10) = Fin 100"
  "spec_afterDiscount (Fin 1) (Fin 1000) (Fin 10) = Fin 900"
  "spec_tax (Fin 1) (Fin 1000) (Fin 10) (Fin 0) = Fin 0"
  "spec_amount (Fin 1) (Fin 1000) (Fin 10) (Fin 0) = Fin 900"
  by code_simp+

lemma example_strings:
  "num_toString (Fin 236) = ''236''" "num_toString (Fin 200) = ''200''"
  "num_toString (Fin 36) = ''36''" "num_toString (Fin 900) = ''900''"
  by code_simp+

lemma set_fields_keeps_number:
  "invoicePayload.invoiceNumber u = None \<Longrightarrow>
     Invoice.invoiceNumber (set_fields u i) = Invoice.invoiceNumber i"
  by (simp add: set_fields_def)

lemma updateInvoice_invoices:
  "invoices (fst (updateInvoice genId db iid u its)) =
     (if no_values u then invoices db
      else map (\<lambda>i. if Invoice.id' i = iid then set_fields u i else i) (invoices db))"
  by (simp add: updateInvoice_def Let_def split: option.splits)

lemma updateInvoice_keeps_numbers:
  assumes "invoicePayload.invoiceNumber u = None"
  shows "map Invoice.invoiceNumber (invoices (fst (updateInvoice genId db iid u its))) =
     map Invoice.invoiceNumber (invoices db)"
  unfolding updateInvoice_invoices using assms
  by (simp add: set_fields_keeps_number comp_def cong: map_cong)

lemma update_payload_no_number: "invoicePayload.invoiceNumber (update_invoicePayload data) = None"
  by (simp add: update_invoicePayload_def Let_def)

section \<open>Validation: auxiliary facts\<close>

lemma lit_001: "round64 (1 / 100) = Fin (5764607523034235 / 576460752303423488)"
  by code_simp

lemma not_dlt_iff: "x \<noteq> NaN \<Longrightarrow> b \<noteq> NaN \<Longrightarrow> (\<not> dlt x b) = dle b x"
  by (cases x; cases b) (auto simp add: dlt_def)

lemma dle_NaN [simp]: "dle b NaN = False" "dle NaN b = False"
  by (cases b; simp)+

lemma min_check_iff:
  assumes "b \<noteq> NaN"
  shows "(coerce_number p x (number_min p b m x) = []) = dle b x"
proof (cases "x = NaN")
  case True
  then show ?thesis by (simp add: coerce_number_def)
next
  case False
  then show ?thesis using not_dlt_iff[OF False assms]
    by (auto simp add: coerce_number_def number_min_def)
qed

lemma min_max_check_iff:
  assumes "lo \<noteq> NaN" "hi \<noteq> NaN"
  shows "(coerce_number p x (number_min p lo m x @ number_max p hi x) = []) =
     (dle lo x \<and> dle x hi)"
proof (cases "x = NaN")
  case True
  then show ?thesis by (simp add: coerce_number_def)
next
  case False
  then show ?thesis using not_dlt_iff[OF False assms(1)] not_dlt_iff[OF assms(2) False]
    by (auto simp add: coerce_number_def number_min_def number_max_def)
qed

lemma invoiceItemSchema_accepts:
  "(invoiceItemSchema path item = []) =
     (FormItem.description item \<noteq> []
      \<and> dle (round64 (1 / 100)) (FormItem.quantity item)
      \<and> dle (Fin 0) (FormItem.rate item)
      \<and> dle (Fin 0) (FormItem.taxRate item) \<and> dle (FormItem.taxRate item) (Fin 100)
      \<and> dle (Fin 0) (FormItem.discountRate item) \<and> dle (FormItem.discountRate item) (Fin 100))"
proof -
  have q: "round64 (1 / 100) \<noteq> NaN" by (simp add: lit_001)
  have d: "(string_min1 (path @ [''description'']) (Some ''Description is required'')
        (FormItem.description item) = []) = (FormItem.description item \<noteq> [])"
    by (simp add: string_min1_def)
  show ?thesis
    unfolding invoiceItemSchema_def append_is_Nil_conv d
      min_check_iff[OF q] min_check_iff[of "Fin 0", simplified]
      min_max_check_iff[of "Fin 0" "Fin 100", simplified]
    by simp
qed

lemma item_issues_block_form:
  assumes "i < length (InvoiceFormData.items data)"
    and "invoiceItemSchema [''items'', digits_of (int i)] (InvoiceFormData.items data ! i) \<noteq> []"
  shows "invoiceFormSchema data \<noteq> []"
proof -
  have "(i, InvoiceFormData.items data ! i) \<in> set (enumerate 0 (InvoiceFormData.items data))"
    using assms(1) by (simp add: in_set_enumerate_eq)
  then have "invoiceItemSchema [''items'', digits_of (int i)] (InvoiceFormData.items data ! i)
      \<in> set (map (\<lambda>(i, item). invoiceItemSchema [''items'', digits_of (int i)] item)
                 (enumerate 0 (InvoiceFormData.items data)))"
    by (force simp add: image_iff)
  then have "concat (map (\<lambda>(i, item). invoiceItemSchema [''items'', digits_of (int i)] item)
                 (enumerate 0 (InvoiceFormData.items data))) \<noteq> []"
    using assms(2) by (auto simp add: concat_eq_Nil_conv simp del: set_map)
  then show ?thesis by (simp add: invoiceFormSchema_def)
qed

section \<open>The claims\<close>

subsection \<open>Line amounts and totals\<close>

text \<open>
  C1. For every line item with quantity \<open>q\<close>, rate \<open>r\<close>, discount rate \<open>d\<close> and tax rate
  \<open>t\<close>, the amount that the create path and the update path compute is the amount
  derived in order as line subtotal \<open>q*r\<close>, discount, subtotal after discount, tax and
  amount, that is \<open>(q*r) - (q*r*d/100) + ((q*r - q*r*d/100) * t/100)\<close> in the arithmetic of
  the program; the item carries it as its decimal string.
\<close>

theorem line_amount_formula:
  "map CalculatedItem.amount (create_calculatedItems its) =
     map (\<lambda>item. num_toString (spec_amount (FormItem.quantity item) (FormItem.rate item)
                       (FormItem.discountRate item) (FormItem.taxRate item))) its
   \<and> map CalculatedItem.amount (update_calculatedItems its) =
     map (\<lambda>item. num_toString (spec_amount (FormItem.quantity item) (FormItem.rate item)
                       (FormItem.discountRate item) (FormItem.taxRate item))) its
   \<and> spec_amount q r d t =
       dadd (dsub (dmul q r) (ddiv (dmul (dmul q r) d) (Fin 100)))
            (ddiv (dmul (dsub (dmul q r) (ddiv (dmul (dmul q r) d) (Fin 100))) t) (Fin 100))"
  by (simp add: create_calculatedItems_def update_calculatedItems_def spec_amount_def
      spec_afterDiscount_def spec_tax_def spec_discount_def spec_lineSubtotal_def Let_def)

text \<open>
  C2. For every list of line items (whose numbers are JavaScript numbers), the create
  path and the update path produce a subtotal equal to the sum of \<open>quantity*rate\<close> over
  the items, a discount amount equal to the sum of the discounts of the lines, a tax
  amount equal to the sum of the taxes of the lines, and a total equal to
  \<open>subtotal - discountAmount + taxAmount\<close> exactly. The sums run from zero, left to right,
  in the arithmetic of the program.
\<close>

theorem totals_are_sums:
  assumes "list_all is_form_item its"
  shows "create_subtotal (create_calculatedItems its) =
       dsum (map (\<lambda>item. spec_lineSubtotal (FormItem.quantity item) (FormItem.rate item)) its)
   \<and> create_totalDiscount (create_calculatedItems its) =
       dsum (map (\<lambda>item. spec_discount (FormItem.quantity item) (FormItem.rate item)
                           (FormItem.discountRate item)) its)
   \<and> create_totalTax (create_calculatedItems its) =
       dsum (map (\<lambda>item. spec_tax (FormItem.quantity item) (FormItem.rate item)
                           (FormItem.discountRate item) (FormItem.taxRate item)) its)
   \<and> create_total (create_calculatedItems its) =
       dadd (dsub (create_subtotal (create_calculatedItems its))
                  (create_totalDiscount (create_calculatedItems its)))
            (create_totalTax (create_calculatedItems its))
   \<and> update_subtotal (update_calculatedItems its) =
       dsum (map (\<lambda>item. spec_lineSubtotal (FormItem.quantity item) (FormItem.rate item)) its)
   \<and> update_totalDiscount (update_calculatedItems its) =
       dsum (map (\<lambda>item. spec_discount (FormItem.quantity item) (FormItem.rate item)
                           (FormItem.discountRate item)) its)
   \<and> update_totalTax (update_calculatedItems its) =
       dsum (map (\<lambda>item. spec_tax (FormItem.quantity item) (FormItem.rate item)
                           (FormItem.discountRate item) (FormItem.taxRate item)) its)
   \<and> update_total (update_calculatedItems its) =
       dadd (dsub (update_subtotal (update_calculatedItems its))
                  (update_totalDiscount (update_calculatedItems its)))
            (update_totalTax (update_calculatedItems its))"
proof -
  have u: "update_subtotal (update_calculatedItems its) =
        create_subtotal (create_calculatedItems its)"
      "update_totalDiscount (update_calculatedItems its) =
        create_totalDiscount (create_calculatedItems its)"
      "update_totalTax (update_calculatedItems its) =
        create_totalTax (create_calculatedItems its)"
    by (simp_all add: update_items_eq_create update_subtotal_def create_subtotal_def
        update_totalDiscount_def create_totalDiscount_def update_totalTax_def
        create_totalTax_def)
  show ?thesis
    unfolding u create_subtotal_sum[OF assms] create_totalDiscount_sum[OF assms]
      create_totalTax_sum[OF assms]
    by (simp add: create_total_def update_total_def u create_subtotal_sum[OF assms]
        create_totalDiscount_sum[OF assms] create_totalTax_sum[OF assms])
qed

theorem totals_are_sums_witness:
  "list_all is_form_item
     [\<lparr>FormItem.description = ''Design'', quantity = Fin 2, rate = Fin 100,
        taxRate = Fin 18, discountRate = Fin 0\<rparr>,
      \<lparr>FormItem.description = ''Hosting'', quantity = round64 (1 / 10), rate = Fin 3,
        taxRate = Fin 0, discountRate = Fin 10\<rparr>]
   \<and> create_subtotal (create_calculatedItems
       [\<lparr>FormItem.description = ''Design'', quantity = Fin 2, rate = Fin 100,
          taxRate = Fin 18, discountRate = Fin 0\<rparr>,
        \<lparr>FormItem.description = ''Hosting'', quantity = round64 (1 / 10), rate = Fin 3,
          taxRate = Fin 0, discountRate = Fin 10\<rparr>]) =
     dsum [spec_lineSubtotal (Fin 2) (Fin 100), spec_lineSubtotal (round64 (1 / 10)) (Fin 3)]"
proof -
  have h: "list_all is_form_item
     [\<lparr>FormItem.description = ''Design'', quantity = Fin 2, rate = Fin 100,
        taxRate = Fin 18, discountRate = Fin 0\<rparr>,
      \<lparr>FormItem.description = ''Hosting'', quantity = round64 (1 / 10), rate = Fin 3,
        taxRate = Fin 0, discountRate = Fin 10\<rparr>]"
    by code_simp
  from totals_are_sums[OF h] show ?thesis using h by simp
qed

text \<open>
  C3. The create path and the update path compute the same items and the same totals
  (\<open>update_items_eq_create\<close>, \<open>update_totals_eq_create\<close>), and the preview computes them
  too when every field of the form holds a number (\<open>preview_of_numbers\<close>). It does not
  for every list of line-item inputs: the preview reads the values of the form as they
  are, not the numbers the schema makes of them. In a form whose item has the quantity
  \<open>2\<close> typed and the rate typed and cleared, the rate is the empty string. The schema
  accepts the form, for \<open>Number\<close> of the empty string is \<open>0\<close>, and the create path sends
  the amount \<open>0\<close> and the subtotal, tax amount, discount amount and total \<open>0\<close>. The
  preview of the same form has the amount \<open>0\<close> and the subtotal, tax amount, discount
  amount and total \<open>NaN\<close>, for \<open>parseFloat\<close> of the empty string is \<open>NaN\<close>. With the rate
  \<open>100\<close> typed the two agree, on 200, 36, 0 and 236. In a new item where nothing was
  typed the quantity is \<open>undefined\<close>: the preview ends in a \<open>TypeError\<close>, where the
  submission reports the issues of the schema.
\<close>

theorem preview_diverges_from_submit:
  "handleSubmit None (Some ''INV-0007'') (coerce_form
       \<lparr>FormValues.clientId = ''c1'', date = ''2025-01-01'', dueDate = ''2025-01-31'',
          status = draft, currency = INR, notes = Some [],
          items = [\<lparr>ItemValues.description = ''Consulting'', quantity = Str ''2'',
                     rate = Str [], taxRate = Num (Fin 18), discountRate = Num (Fin 0)\<rparr>]\<rparr>) =
     Inr (Inr (POST_invoices
       \<lparr>invoicePayload.clientId = Some ''c1'', date = Some ''2025-01-01'',
          dueDate = Some ''2025-01-31'', status = Some draft, currency = Some INR,
          notes = Some [], invoiceNumber = Some ''INV-0007'', subtotal = Some ''0'',
          taxAmount = Some ''0'', discountAmount = Some ''0'', total = Some ''0''\<rparr>
       [\<lparr>CalculatedItem.description = ''Consulting'', quantity = ''2'', rate = ''0'',
           taxRate = ''18'', discountRate = ''0'', amount = ''0''\<rparr>]))
   \<and> handlePreview
       [\<lparr>Client.id' = ''c1'', companyName = ''Acme'', contactPerson = ''A. Cme'',
           email = ''a@acme.test'', phone = ''1'', address = ''1 Street''\<rparr>]
       None (Some ''INV-0007'') (\<lambda>i. Fin (1 / 2)) 0
       \<lparr>FormValues.clientId = ''c1'', date = ''2025-01-01'', dueDate = ''2025-01-31'',
          status = draft, currency = INR, notes = Some [],
          items = [\<lparr>ItemValues.description = ''Consulting'', quantity = Str ''2'',
                     rate = Str [], taxRate = Num (Fin 18), discountRate = Num (Fin 0)\<rparr>]\<rparr> =
     Inr \<lparr>Invoice.id' = ''preview'', invoiceNumber = ''INV-0007'', clientId = ''c1'',
            date = ''2025-01-01'', dueDate = ''2025-01-31'', status = draft, currency = INR,
            subtotal = ''NaN'', taxAmount = ''NaN'', discountAmount = ''NaN'', total = ''NaN'',
            notes = None, createdAt = 0,
            client = Some \<lparr>Client.id' = ''c1'', companyName = ''Acme'',
                              contactPerson = ''A. Cme'', email = ''a@acme.test'',
                              phone = ''1'', address = ''1 Street''\<rparr>,
            items = [\<lparr>CalculatedItem.description = ''Consulting'', quantity = ''2'',
                       rate = [], taxRate = ''18'', discountRate = ''0'', amount = ''0'',
                       InvoiceItem.id' = ''0.5'', invoiceId = ''preview''\<rparr>]\<rparr>
   \<and> handleSubmit None (Some ''INV-0007'') (coerce_form
       \<lparr>FormValues.clientId = ''c1'', date = ''2025-01-01'', dueDate = ''2025-01-31'',
          status = draft, currency = INR, notes = Some [],
          items = [\<lparr>ItemValues.description = ''Consulting'', quantity = Str ''2'',
                     rate = Str ''100'', taxRate = Num (Fin 18),
                     discountRate = Num (Fin 0)\<rparr>]\<rparr>) =
     Inr (Inr (POST_invoices
       \<lparr>invoicePayload.clientId = Some ''c1'', date = Some ''2025-01-01'',
          dueDate = Some ''2025-01-31'', status = Some draft, currency = Some INR,
          notes = Some [], invoiceNumber = Some ''INV-0007'', subtotal = Some ''200'',
          taxAmount = Some ''36'', discountAmount = Some ''0'', total = Some ''236''\<rparr>
       [\<lparr>CalculatedItem.description = ''Consulting'', quantity = ''2'', rate = ''100'',
           taxRate = ''18'', discountRate = ''0'', amount = ''236''\<rparr>]))
   \<and> handlePreview
       [\<lparr>Client.id' = ''c1'', companyName = ''Acme'', contactPerson = ''A. Cme'',
           email = ''a@acme.test'', phone = ''1'', address = ''1 Street''\<rparr>]
       None (Some ''INV-0007'') (\<lambda>i. Fin (1 / 2)) 0
       \<lparr>FormValues.clientId = ''c1'', date = ''2025-01-01'', dueDate = ''2025-01-31'',
          status = draft, currency = INR, notes = Some [],
          items = [\<lparr>ItemValues.description = ''Consulting'', quantity = Str ''2'',
                     rate = Str ''100'', taxRate = Num (Fin 18),
                     discountRate = Num (Fin 0)\<rparr>]\<rparr> =
     Inr \<lparr>Invoice.id' = ''preview'', invoiceNumber = ''INV-0007'', clientId = ''c1'',
            date = ''2025-01-01'', dueDate = ''2025-01-31'', status = draft, currency = INR,
            subtotal = ''200'', taxAmount = ''36'', discountAmount = ''0'', total = ''236'',
            notes = None, createdAt = 0,
            client = Some \<lparr>Client.id' = ''c1'', companyName = ''Acme'',
                              contactPerson = ''A. Cme'', email = ''a@acme.test'',
                              phone = ''1'', address = ''1 Street''\<rparr>,
            items = [\<lparr>CalculatedItem.description = ''Consulting'', quantity = ''2'',
                       rate = ''100'', taxRate = ''18'', discountRate = ''0'',
                       amount = ''236'', InvoiceItem.id' = ''0.5'',
                       invoiceId = ''preview''\<rparr>]\<rparr>
   \<and> handlePreview
       [\<lparr>Client.id' = ''c1'', companyName = ''Acme'', contactPerson = ''A. Cme'',
           email = ''a@acme.test'', phone = ''1'', address = ''1 Street''\<rparr>]
       None (Some ''INV-0007'') (\<lambda>i. Fin (1 / 2)) 0
       \<lparr>FormValues.clientId = ''c1'', date = ''2025-01-01'', dueDate = ''2025-01-31'',
          status = draft, currency = INR, notes = Some [],
          items = [\<lparr>ItemValues.description = [], quantity = Undefined, rate = Undefined,
                     taxRate = Num (Fin 18), discountRate = Num (Fin 0)\<rparr>]\<rparr> =
     Inl TypeError
   \<and> handleSubmit None (Some ''INV-0007'') (coerce_form
       \<lparr>FormValues.clientId = ''c1'', date = ''2025-01-01'', dueDate = ''2025-01-31'',
          status = draft, currency = INR, notes = Some [],
          items = [\<lparr>ItemValues.description = [], quantity = Undefined, rate = Undefined,
                     taxRate = Num (Fin 18), discountRate = Num (Fin 0)\<rparr>]\<rparr>) =
     Inl [Issue [''items'', ''0'', ''description''] too_small (Some ''Description is required''),
          Issue [''items'', ''0'', ''quantity''] invalid_type None,
          Issue [''items'', ''0'', ''rate''] invalid_type None]"
  by code_simp

text \<open>
  C4. The totals computation is deterministic: run on two identical lists of line items
  it yields the same items, with the same amounts, and the same subtotal, discount amount,
  tax amount and total.
\<close>

theorem totals_deterministic:
  "its = its' \<Longrightarrow>
     create_calculatedItems its = create_calculatedItems its'
     \<and> map CalculatedItem.amount (create_calculatedItems its) =
         map CalculatedItem.amount (create_calculatedItems its')
     \<and> create_subtotal (create_calculatedItems its) =
         create_subtotal (create_calculatedItems its')
     \<and> create_totalDiscount (create_calculatedItems its) =
         create_totalDiscount (create_calculatedItems its')
     \<and> create_totalTax (create_calculatedItems its) =
         create_totalTax (create_calculatedItems its')
     \<and> create_total (create_calculatedItems its) = create_total (create_calculatedItems its')"
  by simp

theorem totals_deterministic_witness:
  "[\<lparr>FormItem.description = ''Design'', quantity = Fin 2, rate = Fin 100,
      taxRate = Fin 18, discountRate = Fin 0\<rparr>] =
   [\<lparr>FormItem.description = ''Design'', quantity = Fin 2, rate = Fin 100,
      taxRate = Fin 18, discountRate = Fin 0\<rparr>]
   \<and> create_total (create_calculatedItems
        [\<lparr>FormItem.description = ''Design'', quantity = Fin 2, rate = Fin 100,
           taxRate = Fin 18, discountRate = Fin 0\<rparr>]) =
       create_total (create_calculatedItems
        [\<lparr>FormItem.description = ''Design'', quantity = Fin 2, rate = Fin 100,
           taxRate = Fin 18, discountRate = Fin 0\<rparr>])"
  using totals_deterministic
    [of "[\<lparr>FormItem.description = ''Design'', quantity = Fin 2, rate = Fin 100,
            taxRate = Fin 18, discountRate = Fin 0\<rparr>]"
        "[\<lparr>FormItem.description = ''Design'', quantity = Fin 2, rate = Fin 100,
            taxRate = Fin 18, discountRate = Fin 0\<rparr>]"]
  by simp

text \<open>
  C7. The worked examples. On the single item \<open>{quantity 2, rate 100, taxRate 18,
  discountRate 0}\<close> the line subtotal is 200, the discount 0, the tax 36 and the amount
  236, stored as \<open>"236"\<close>; the subtotal is 200, the tax amount 36 and the total 236. On
  the single item \<open>{quantity 1, rate 1000, taxRate 0, discountRate 10}\<close> the discount is
  100, the subtotal after discount 900, the tax 0 and the amount 900; the total is 900.
\<close>

theorem worked_examples:
  "spec_lineSubtotal (Fin 2) (Fin 100) = Fin 200
   \<and> spec_discount (Fin 2) (Fin 100) (Fin 0) = Fin 0
   \<and> spec_tax (Fin 2) (Fin 100) (Fin 0) (Fin 18) = Fin 36
   \<and> spec_amount (Fin 2) (Fin 100) (Fin 0) (Fin 18) = Fin 236
   \<and> map CalculatedItem.amount (create_calculatedItems
         [\<lparr>FormItem.description = label, quantity = Fin 2, rate = Fin 100, taxRate = Fin 18,
            discountRate = Fin 0\<rparr>]) = [''236'']
   \<and> create_subtotal (create_calculatedItems
         [\<lparr>FormItem.description = label, quantity = Fin 2, rate = Fin 100, taxRate = Fin 18,
            discountRate = Fin 0\<rparr>]) = Fin 200
   \<and> create_totalDiscount (create_calculatedItems
         [\<lparr>FormItem.description = label, quantity = Fin 2, rate = Fin 100, taxRate = Fin 18,
            discountRate = Fin 0\<rparr>]) = Fin 0
   \<and> create_totalTax (create_calculatedItems
         [\<lparr>FormItem.description = label, quantity = Fin 2, rate = Fin 100, taxRate = Fin 18,
            discountRate = Fin 0\<rparr>]) = Fin 36
   \<and> create_total (create_calculatedItems
         [\<lparr>FormItem.description = label, quantity = Fin 2, rate = Fin 100, taxRate = Fin 18,
            discountRate = Fin 0\<rparr>]) = Fin 236
   \<and> num_toString (Fin 236) = ''236''
   \<and> spec_discount (Fin 1) (Fin 1000) (Fin 10) = Fin 100
   \<and> spec_afterDiscount (Fin 1) (Fin 1000) (Fin 10) = Fin 900
   \<and> spec_tax (Fin 1) (Fin 1000) (Fin 10) (Fin 0) = Fin 0
   \<and> spec_amount (Fin 1) (Fin 1000) (Fin 10) (Fin 0) = Fin 900
   \<and> map CalculatedItem.amount (create_calculatedItems
         [\<lparr>FormItem.description = label, quantity = Fin 1, rate = Fin 1000, taxRate = Fin 0,
            discountRate = Fin 10\<rparr>]) = [''900'']
   \<and> create_subtotal (create_calculatedItems
         [\<lparr>FormItem.description = label, quantity = Fin 1, rate = Fin 1000, taxRate = Fin 0,
            discountRate = Fin 10\<rparr>]) = Fin 1000
   \<and> create_totalDiscount (create_calculatedItems
         [\<lparr>FormItem.description = label, quantity = Fin 1, rate = Fin 1000, taxRate = Fin 0,
            discountRate = Fin 10\<rparr>]) = Fin 100
   \<and> create_totalTax (create_calculatedItems
         [\<lparr>FormItem.description = label, quantity = Fin 1, rate = Fin 1000, taxRate = Fin 0,
            discountRate = Fin 10\<rparr>]) = Fin 0
   \<and> create_total (create_calculatedItems
         [\<lparr>FormItem.description = label, quantity = Fin 1, rate = Fin 1000, taxRate = Fin 0,
            discountRate = Fin 10\<rparr>]) = Fin 900
   \<and> num_toString (Fin 900) = ''900''"
  unfolding example1_items example2_items
  by (simp add: example1_totals example2_totals example1_steps example2_steps example_strings
      del: num_toString.simps)

subsection \<open>Validation\<close>

text \<open>
  C8, as stated, fails in both directions of its wording: a quantity of 0.005 is greater
  than 0, and an item with an empty description has a quantity, a rate, a tax rate and a
  discount rate as the specification asks, but the schema refuses both items.
\<close>

theorem validation_counterexample:
  "spec_valid_item \<lparr>FormItem.description = ''Consulting'', quantity = round64 (1 / 200),
       rate = Fin 100, taxRate = Fin 18, discountRate = Fin 0\<rparr>
   \<and> invoiceItemSchema [] \<lparr>FormItem.description = ''Consulting'', quantity = round64 (1 / 200),
       rate = Fin 100, taxRate = Fin 18, discountRate = Fin 0\<rparr> =
     [Issue [''quantity''] too_small (Some ''Quantity must be greater than 0'')]
   \<and> spec_valid_item \<lparr>FormItem.description = [], quantity = Fin 1,
       rate = Fin 100, taxRate = Fin 18, discountRate = Fin 0\<rparr>
   \<and> invoiceItemSchema [] \<lparr>FormItem.description = [], quantity = Fin 1,
       rate = Fin 100, taxRate = Fin 18, discountRate = Fin 0\<rparr> =
     [Issue [''description''] too_small (Some ''Description is required'')]"
  by code_simp

text \<open>
  C8, amended. The schema accepts a line item if and only if its description is not
  empty, its quantity is at least 0.01, its rate is at least 0, and its tax rate and its
  discount rate lie in [0, 100] (so none of the four is NaN). On submission, a form with
  an item that the schema refuses yields the issues and no request: no totals are
  computed for it.
\<close>

theorem validation_accepts_iff:
  "(invoiceItemSchema path item = []) =
     (FormItem.description item \<noteq> []
      \<and> dle (round64 (1 / 100)) (FormItem.quantity item)
      \<and> dle (Fin 0) (FormItem.rate item)
      \<and> dle (Fin 0) (FormItem.taxRate item) \<and> dle (FormItem.taxRate item) (Fin 100)
      \<and> dle (Fin 0) (FormItem.discountRate item) \<and> dle (FormItem.discountRate item) (Fin 100))
   \<and> (i < length (InvoiceFormData.items data)
        \<and> invoiceItemSchema [''items'', digits_of (int i)] (InvoiceFormData.items data ! i) \<noteq> []
      \<longrightarrow> handleSubmit invoice nextInvoiceNumber data = Inl (invoiceFormSchema data))"
proof -
  have "handleSubmit invoice nextInvoiceNumber data = Inl (invoiceFormSchema data)"
    if "invoiceFormSchema data \<noteq> []"
    using that by (cases "invoiceFormSchema data") (simp_all add: handleSubmit_def)
  then show ?thesis
    using invoiceItemSchema_accepts[of path item] item_issues_block_form[of i data] by blast
qed

theorem validation_accepts_iff_witness:
  "0 < length (InvoiceFormData.items
       \<lparr>InvoiceFormData.clientId = ''c1'', date = ''2025-01-01'', dueDate = ''2025-01-31'',
          status = draft, currency = INR, notes = None,
          items = [\<lparr>FormItem.description = ''Consulting'', quantity = Fin 0, rate = Fin 100,
                     taxRate = Fin 18, discountRate = Fin 0\<rparr>]\<rparr>)
   \<and> handleSubmit None None
       \<lparr>InvoiceFormData.clientId = ''c1'', date = ''2025-01-01'', dueDate = ''2025-01-31'',
          status = draft, currency = INR, notes = None,
          items = [\<lparr>FormItem.description = ''Consulting'', quantity = Fin 0, rate = Fin 100,
                     taxRate = Fin 18, discountRate = Fin 0\<rparr>]\<rparr> =
     Inl [Issue [''items'', ''0'', ''quantity''] too_small
            (Some ''Quantity must be greater than 0'')]"
proof -
  define data where "data =
       \<lparr>InvoiceFormData.clientId = ''c1'', date = ''2025-01-01'', dueDate = ''2025-01-31'',
          status = draft, currency = INR, notes = None,
          items = [\<lparr>FormItem.description = ''Consulting'', quantity = Fin 0, rate = Fin 100,
                     taxRate = Fin 18, discountRate = Fin 0\<rparr>]\<rparr>"
  have l: "0 < length (InvoiceFormData.items data)" by (simp add: data_def)
  have s: "invoiceFormSchema data =
      [Issue [''items'', ''0'', ''quantity''] too_small (Some ''Quantity must be greater than 0'')]"
    unfolding data_def by code_simp
  have b: "invoiceItemSchema [''items'', digits_of (int 0)] (InvoiceFormData.items data ! 0) \<noteq> []"
    by (simp add: invoiceItemSchema_accepts data_def lit_001)
  from validation_accepts_iff[of "[]" "InvoiceFormData.items data ! 0" 0 data None None] l b
  have "handleSubmit None None data = Inl (invoiceFormSchema data)" by blast
  then have "handleSubmit None None data =
      Inl [Issue [''items'', ''0'', ''quantity''] too_small
             (Some ''Quantity must be greater than 0'')]"
    by (simp only: s)
  then show ?thesis using l by (simp add: data_def)
qed

subsection \<open>Invoice numbers\<close>



text \<open>
  C6, as stated, fails: after the invoice \<open>INV-9007199254740993\<close> the next number is
  \<open>INV-9007199254740992\<close>, where parsing the digits as an integer, adding 1 and padding
  gives \<open>INV-9007199254740994\<close>.
\<close>

theorem next_number_counterexample:
  "getNextInvoiceNumber (one_invoice_db ''INV-9007199254740993'') = ''INV-9007199254740992''
   \<and> ''INV-'' @ padStart (digits_of (int_of_digits ''9007199254740993'' + 1)) 4 ''0''
       = ''INV-9007199254740994''
   \<and> getNextInvoiceNumber (one_invoice_db ''INV-9007199254740993'') \<noteq>
       ''INV-'' @ padStart (digits_of (int_of_digits ''9007199254740993'' + 1)) 4 ''0''"
proof -
  have a: "padStart (num_toString (dadd (parseInt (replace ''INV-9007199254740993'' ''INV-'' []))
              (Fin 1))) 4 ''0'' = ''9007199254740992''"
    by code_simp
  have b: "padStart (digits_of (int_of_digits ''9007199254740993'' + 1)) 4 ''0''
      = ''9007199254740994''"
    by code_simp
  show ?thesis unfolding one_invoice_db_next a b by simp
qed

text \<open>
  C6, amended. When the invoice created last has a number that is the configured prefix
  followed by digits of value \<open>n\<close>, with \<open>n + 1\<close> below \<open>2\<^sup>5\<^sup>3\<close>, \<open>getNextInvoiceNumber\<close>
  strips the prefix, parses the digits as the integer \<open>n\<close>, adds 1 and pads the decimal
  digits of \<open>n + 1\<close> to 4 digits with zeros on the left; after \<open>INV-0042\<close> with the
  prefix \<open>INV-\<close> it returns \<open>INV-0043\<close>.
\<close>

theorem next_number_increments:
  assumes "lastInvoice db = [latest]"
    and "Invoice.invoiceNumber latest = or_default (getSetting db ''invoice_prefix'') ''INV-'' @ ds"
    and "ds \<noteq> []" "list_all is_digit ds" "int_of_digits ds + 1 < 2 ^ 53"
  shows "latest \<in> set (invoices db)
     \<and> (\<forall>i \<in> set (invoices db). Invoice.createdAt i \<le> Invoice.createdAt latest)
     \<and> replace (Invoice.invoiceNumber latest)
          (or_default (getSetting db ''invoice_prefix'') ''INV-'') [] = ds
     \<and> parseInt ds = Fin (of_int (int_of_digits ds))
     \<and> getNextInvoiceNumber db =
         or_default (getSetting db ''invoice_prefix'') ''INV-''
           @ padStart (digits_of (int_of_digits ds + 1)) 4 ''0''"
proof -
  have pne: "or_default (getSetting db ''invoice_prefix'') ''INV-'' \<noteq> []"
    by (rule or_default_nonempty) simp
  have rep: "replace (Invoice.invoiceNumber latest)
      (or_default (getSetting db ''invoice_prefix'') ''INV-'') [] = ds"
    using replace_prefix[OF pne, of ds] assms(2) by simp
  have n0: "0 \<le> int_of_digits ds" by (rule int_of_digits_nonneg[OF assms(4)])
  have pi: "parseInt ds = Fin (of_int (int_of_digits ds))"
  proof (cases "int_of_digits ds = 0")
    case True
    then show ?thesis using parseInt_digits[OF assms(3,4)] by (simp add: round64_def)
  next
    case False
    then have "0 < int_of_digits ds" "int_of_digits ds < 2 ^ 53" using n0 assms(5) by simp_all
    from round64_small_int[OF this] show ?thesis using parseInt_digits[OF assms(3,4)] by simp
  qed
  show ?thesis
    using lastInvoice_newest[OF assms(1)] rep pi next_number_safe[OF assms] by blast
qed

theorem next_number_increments_witness:
  "lastInvoice (one_invoice_db ''INV-0042'') = [hd (invoices (one_invoice_db ''INV-0042''))]
   \<and> Invoice.invoiceNumber (hd (invoices (one_invoice_db ''INV-0042''))) = ''INV-'' @ ''0042''
   \<and> list_all is_digit ''0042'' \<and> int_of_digits ''0042'' + 1 < 2 ^ 53
   \<and> getNextInvoiceNumber (one_invoice_db ''INV-0042'') = ''INV-0043''"
proof -
  have h2: "Invoice.invoiceNumber (hd (invoices (one_invoice_db ''INV-0042''))) =
      or_default (getSetting (one_invoice_db ''INV-0042'') ''invoice_prefix'') ''INV-'' @ ''0042''"
    by (simp add: one_invoice_db_last)
  have h3: "''0042'' \<noteq> []" by simp
  have h4: "list_all is_digit ''0042''" by (simp add: is_digit_def)
  have v: "int_of_digits ''0042'' = 42" by (simp add: int_of_digits_def digit_val_def)
  have h5: "int_of_digits ''0042'' + 1 < 2 ^ 53" by (simp add: v)
  have p: "padStart (digits_of 43) 4 ''0'' = ''0043''" by code_simp
  from next_number_increments[OF one_invoice_db_last(1) h2 h3 h4 h5]
  show ?thesis using h4 h5 by (simp add: one_invoice_db_last v p)
qed

text \<open>
  C10, as stated, fails: after the invoice \<open>INV-9007199254740992\<close>, whose digits parse to
  \<open>n = 2\<^sup>5\<^sup>3\<close>, the next number is \<open>INV-9007199254740992\<close> again, not the prefix followed
  by the decimal digits of \<open>n + 1\<close>, and the numeric part does not increase.
\<close>

theorem past_9999_counterexample:
  "getNextInvoiceNumber (one_invoice_db ''INV-9007199254740992'') = ''INV-9007199254740992''
   \<and> 9999 < int_of_digits ''9007199254740992'' + 1
   \<and> getNextInvoiceNumber (one_invoice_db ''INV-9007199254740992'') \<noteq>
       ''INV-'' @ digits_of (int_of_digits ''9007199254740992'' + 1)
   \<and> \<not> int_of_digits ''9007199254740992''
         < int_of_digits (drop 4 (getNextInvoiceNumber (one_invoice_db ''INV-9007199254740992'')))"
proof -
  have a: "padStart (num_toString (dadd (parseInt (replace ''INV-9007199254740992'' ''INV-'' []))
              (Fin 1))) 4 ''0'' = ''9007199254740992''"
    by code_simp
  have v: "int_of_digits ''9007199254740992'' = 9007199254740992"
    by (simp add: int_of_digits_def digit_val_def)
  have b: "digits_of 9007199254740993 = ''9007199254740993''" by code_simp
  show ?thesis unfolding one_invoice_db_next a using b by (simp add: v)
qed

text \<open>
  C10, amended. For every last invoice number that is the prefix followed by digits of
  value \<open>n\<close> with \<open>9999 < n + 1 < 2\<^sup>5\<^sup>3\<close>, \<open>getNextInvoiceNumber\<close> neither truncates nor
  wraps: it returns the prefix followed by all the decimal digits of \<open>n + 1\<close>, more than
  four of them, and the numeric part of the result is \<open>n + 1\<close>, above \<open>n\<close>. After
  \<open>INV-9999\<close> it returns \<open>INV-10000\<close>.
\<close>

theorem past_9999_no_truncation:
  assumes "lastInvoice db = [latest]"
    and "Invoice.invoiceNumber latest = or_default (getSetting db ''invoice_prefix'') ''INV-'' @ ds"
    and "ds \<noteq> []" "list_all is_digit ds"
    and "9999 < int_of_digits ds + 1" "int_of_digits ds + 1 < 2 ^ 53"
  shows "getNextInvoiceNumber db =
       or_default (getSetting db ''invoice_prefix'') ''INV-'' @ digits_of (int_of_digits ds + 1)
     \<and> 4 < length (digits_of (int_of_digits ds + 1))
     \<and> int_of_digits (digits_of (int_of_digits ds + 1)) = int_of_digits ds + 1
     \<and> int_of_digits ds < int_of_digits (digits_of (int_of_digits ds + 1))"
proof -
  have "10 ^ 4 \<le> int_of_digits ds + 1" using assms(5) by simp
  from digits_of_length_gt[OF this] have len: "4 < length (digits_of (int_of_digits ds + 1))" .
  then have pad: "padStart (digits_of (int_of_digits ds + 1)) 4 ''0'' = digits_of (int_of_digits ds + 1)"
    by (simp add: padStart_def)
  have rd: "int_of_digits (digits_of (int_of_digits ds + 1)) = int_of_digits ds + 1"
    using assms(5) by (simp add: int_of_digits_digits_of)
  show ?thesis
    using next_number_safe[OF assms(1,2,3,4,6)] len rd by (simp add: pad)
qed

theorem past_9999_no_truncation_witness:
  "lastInvoice (one_invoice_db ''INV-9999'') = [hd (invoices (one_invoice_db ''INV-9999''))]
   \<and> Invoice.invoiceNumber (hd (invoices (one_invoice_db ''INV-9999''))) = ''INV-'' @ ''9999''
   \<and> list_all is_digit ''9999'' \<and> 9999 < int_of_digits ''9999'' + 1
   \<and> int_of_digits ''9999'' + 1 < 2 ^ 53
   \<and> getNextInvoiceNumber (one_invoice_db ''INV-9999'') = ''INV-10000''"
proof -
  have h2: "Invoice.invoiceNumber (hd (invoices (one_invoice_db ''INV-9999''))) =
      or_default (getSetting (one_invoice_db ''INV-9999'') ''invoice_prefix'') ''INV-'' @ ''9999''"
    by (simp add: one_invoice_db_last)
  have h3: "''9999'' \<noteq> []" by simp
  have h4: "list_all is_digit ''9999''" by (simp add: is_digit_def)
  have v: "int_of_digits ''9999'' = 9999" by (simp add: int_of_digits_def digit_val_def)
  have h5: "9999 < int_of_digits ''9999'' + 1" by (simp add: v)
  have h6: "int_of_digits ''9999'' + 1 < 2 ^ 53" by (simp add: v)
  have p: "digits_of 10000 = ''10000''" by code_simp
  from past_9999_no_truncation[OF one_invoice_db_last(1) h2 h3 h4 h5 h6]
  show ?thesis using h4 h5 h6 by (simp add: one_invoice_db_last v p)
qed

subsection \<open>Updating an invoice\<close>

text \<open>
  C9. The invoice number is immutable after creation: the invoice that the update path
  sends has no \<open>invoiceNumber\<close> field, and \<open>updateInvoice\<close> writes only the fields its
  argument has, so after the update every stored invoice has the number it had before;
  the same holds for any argument without the field. The id and the creation time are
  never written.
\<close>

theorem invoiceNumber_immutable:
  "invoicePayload.invoiceNumber (update_invoicePayload data) = None
   \<and> updateInvoiceMutation (Some existing) data =
       Inr (PUT_invoices (Invoice.id' existing) (update_invoicePayload data)
              (update_calculatedItems (InvoiceFormData.items data)))
   \<and> map Invoice.invoiceNumber
         (invoices (fst (updateInvoice genId db iid (update_invoicePayload data) its))) =
       map Invoice.invoiceNumber (invoices db)
   \<and> map Invoice.invoiceNumber
         (invoices (fst (updateInvoice genId db iid
                           (u \<lparr> invoicePayload.invoiceNumber := None \<rparr>) its))) =
       map Invoice.invoiceNumber (invoices db)
   \<and> map Invoice.id' (invoices (fst (updateInvoice genId db iid u its))) =
       map Invoice.id' (invoices db)
   \<and> map Invoice.createdAt (invoices (fst (updateInvoice genId db iid u its))) =
       map Invoice.createdAt (invoices db)"
proof -
  have a: "map Invoice.invoiceNumber
         (invoices (fst (updateInvoice genId db iid (update_invoicePayload data) its))) =
       map Invoice.invoiceNumber (invoices db)"
    by (rule updateInvoice_keeps_numbers[OF update_payload_no_number])
  have b: "map Invoice.invoiceNumber
         (invoices (fst (updateInvoice genId db iid
                           (u \<lparr> invoicePayload.invoiceNumber := None \<rparr>) its))) =
       map Invoice.invoiceNumber (invoices db)"
    by (rule updateInvoice_keeps_numbers) simp
  have c: "map Invoice.id' (invoices (fst (updateInvoice genId db iid u its))) =
       map Invoice.id' (invoices db)"
    unfolding updateInvoice_invoices by (simp add: set_fields_def comp_def cong: map_cong)
  have d: "map Invoice.createdAt (invoices (fst (updateInvoice genId db iid u its))) =
       map Invoice.createdAt (invoices db)"
    unfolding updateInvoice_invoices by (simp add: set_fields_def comp_def cong: map_cong)
  show ?thesis
    using a b c d update_payload_no_number by (simp add: updateInvoiceMutation_def)
qed

end
